theory Spec2Isabelle
  imports Main "HOL-Library.AList"
begin

section \<open>The signaling server of DJ-Pilot\<close>

text \<open>
  The server keeps one in-memory registry \<open>rooms\<close> (a JavaScript \<open>Map\<close> from room id to
  a room object) and stores the session of a connection as ad hoc fields
  \<open>socket.roomId\<close> and \<open>socket.role\<close> on the socket.io socket. The handlers are
  modelled by explicit state passing: each takes the server state and returns the new
  state together with the list of events it delivers, in the order of the \<open>emit\<close> calls.
  Node runs every handler to completion on one thread, so a handler is one atomic step.

  The model follows the Cloud Run variant of the server, which has the connection counter
  and the rate limit of the relay. The variant without them has the same \<open>join-room\<close>,
  host-control and disconnect handlers, the same REST handlers and the same sweep.
\<close>

subsection \<open>JavaScript values\<close>

type_synonym conn_id = string
type_synonym room_id = string

text \<open>
  The fields of a client payload are arbitrary JSON values. A JavaScript string is
  modelled as a \<open>string\<close>, one list element for each UTF-16 code unit counted by
  \<open>.length\<close>.
\<close>

datatype js_value =
    JUndefined
  | JNull
  | JBool bool
  | JNumber int
  | JString string
  | JObject

fun truthy :: "js_value \<Rightarrow> bool" where
  "truthy JUndefined = False"
| "truthy JNull = False"
| "truthy (JBool b) = b"
| "truthy (JNumber n) = (n \<noteq> 0)"
| "truthy (JString s) = (s \<noteq> [])"
| "truthy JObject = True"

text \<open>A field that holds \<open>null\<close>/\<open>undefined\<close> or a string: \<open>room.host\<close>, \<open>socket.roomId\<close>.\<close>

fun truthy_str :: "string option \<Rightarrow> bool" where
  "truthy_str None = False"
| "truthy_str (Some s) = (s \<noteq> [])"

subsection \<open>Data model\<close>

text \<open>
  \<open>{ host: null, listeners: new Set(), createdAt: new Date() }\<close>. A JavaScript \<open>Set\<close>
  iterates in insertion order and holds no duplicates: a list, with \<open>Set_add\<close> and
  \<open>Set_delete\<close> below; \<open>.size\<close> is \<open>length\<close>. Times are milliseconds since the epoch.
\<close>

record room =
  host :: "conn_id option"
  listeners :: "conn_id list"
  createdAt :: int

definition Set_add :: "'a \<Rightarrow> 'a list \<Rightarrow> 'a list" where
  "Set_add x xs = (if x \<in> set xs then xs else xs @ [x])"

definition Set_delete :: "'a \<Rightarrow> 'a list \<Rightarrow> 'a list" where
  "Set_delete x xs = removeAll x xs"

text \<open>
  The state a socket carries: the fields \<open>socket.roomId\<close> and \<open>socket.role\<close> written by
  the join handler (both \<open>undefined\<close> on a fresh socket), the socket.io rooms entered with
  \<open>socket.join\<close>, and the \<open>signalRateLimit\<close> map created in the connection handler of
  this socket.
\<close>

record socket =
  roomId :: "room_id option"
  role :: js_value
  joined :: "room_id list"
  signalRateLimit :: "(conn_id \<times> int) list"

definition new_socket :: socket where
  "new_socket = \<lparr>roomId = None, role = JUndefined, joined = [], signalRateLimit = []\<rparr>"

text \<open>
  A JavaScript \<open>Map\<close> is an association list in insertion order with distinct keys:
  \<open>m.get(k)\<close> is \<open>map_of m k\<close>, \<open>m.has(k)\<close> is \<open>Map_has\<close>, \<open>m.set(k, v)\<close> is
  \<open>AList.update k v m\<close>, \<open>m.delete(k)\<close> is \<open>AList.delete k m\<close>, \<open>m.size\<close> is \<open>length m\<close>.
  \<open>sockets\<close> holds the connected sockets, \<open>connectionCount\<close> is the counter of the
  same name.
\<close>

definition Map_has :: "'k \<Rightarrow> ('k \<times> 'v) list \<Rightarrow> bool" where
  "Map_has k m = (map_of m k \<noteq> None)"

record server =
  rooms :: "(room_id \<times> room) list"
  sockets :: "(conn_id \<times> socket) list"
  connectionCount :: int

definition init_server :: server where
  "init_server = \<lparr>rooms = [], sockets = [], connectionCount = 0\<rparr>"

text \<open>The values of \<open>config\<close> the handlers read; \<open>roomTimeout\<close> is in hours.\<close>

record config =
  maxRooms :: int
  roomTimeout :: int
  maxConnections :: int

subsection \<open>Outbound events and socket.io delivery\<close>

datatype event =
    ErrorEv string
  | HostJoined room_id
  | ListenerJoinedRoom room_id
  | ListenerJoined conn_id
  | HostConnected
  | HostDisconnected
  | ListenerLeft conn_id
  | ListenerCountUpdated nat
  | HostMuted
  | HostUnmuted
  | Offer conn_id js_value
  | Answer conn_id js_value
  | IceCandidate conn_id js_value

type_synonym delivery = "conn_id \<times> event"

text \<open>
  socket.io (a library, not part of the repository) is modelled by its documented
  behaviour. \<open>socket.emit(ev)\<close> delivers \<open>ev\<close> to the socket itself.
  \<open>socket.to(ch).emit(ev)\<close> delivers \<open>ev\<close> to every connected socket that is in the
  socket.io room \<open>ch\<close>, except the sending socket; every socket is in the room named by
  its own id, and enters further rooms with \<open>socket.join\<close>. A socket leaves all its rooms
  when it disconnects, before the \<open>disconnect\<close> listeners run.
\<close>

definition emit :: "conn_id \<Rightarrow> event \<Rightarrow> delivery list" where
  "emit sid ev = [(sid, ev)]"

definition in_channel :: "string \<Rightarrow> conn_id \<times> socket \<Rightarrow> bool" where
  "in_channel ch p = (fst p = ch \<or> ch \<in> set (joined (snd p)))"

definition to_emit :: "server \<Rightarrow> conn_id \<Rightarrow> string \<Rightarrow> event \<Rightarrow> delivery list" where
  "to_emit st sid ch ev =
     map (\<lambda>p. (fst p, ev)) (filter (\<lambda>p. fst p \<noteq> sid \<and> in_channel ch p) (sockets st))"

subsection \<open>The join handlers\<close>

text \<open>
  \<open>handleHostJoin(socket, room, roomId)\<close>. The room object is the entry of \<open>roomId\<close> in
  the registry, which the caller has just looked up; the \<open>None\<close> branch is never taken.
  The \<open>forEach\<close> over the listeners emits two events for each listener, in insertion order.
\<close>

definition handleHostJoin :: "conn_id \<Rightarrow> room_id \<Rightarrow> server \<Rightarrow> server \<times> delivery list" where
  "handleHostJoin sid rid st =
     (case map_of (rooms st) rid of
        None \<Rightarrow> (st, [])
      | Some room \<Rightarrow>
          if truthy_str (host room) then (st, emit sid (ErrorEv ''Room already has a host''))
          else
            (st\<lparr>rooms := AList.update rid (room\<lparr>host := Some sid\<rparr>) (rooms st)\<rparr>,
             emit sid (HostJoined rid) @
             concat (map (\<lambda>listenerId.
                        to_emit st sid listenerId HostConnected @ emit sid (ListenerJoined listenerId))
                     (listeners room))))"

text \<open>\<open>handleListenerJoin(socket, room, roomId)\<close>.\<close>

definition handleListenerJoin :: "conn_id \<Rightarrow> room_id \<Rightarrow> server \<Rightarrow> server \<times> delivery list" where
  "handleListenerJoin sid rid st =
     (case map_of (rooms st) rid of
        None \<Rightarrow> (st, [])
      | Some room \<Rightarrow>
          (let room' = room\<lparr>listeners := Set_add sid (listeners room)\<rparr>;
               listenerCount = length (listeners room')
           in (st\<lparr>rooms := AList.update rid room' (rooms st)\<rparr>,
               emit sid (ListenerJoinedRoom rid) @
               (case host room' of
                  None \<Rightarrow> []
                | Some h \<Rightarrow>
                    if h \<noteq> [] then to_emit st sid h (ListenerJoined sid) @ emit sid HostConnected
                    else []) @
               to_emit st sid rid (ListenerCountUpdated listenerCount))))"

text \<open>
  The guard of the \<open>join-room\<close> handler:
  \<open>!roomId || typeof roomId !== "string" || roomId.length > 10\<close>. A value that is not
  a string makes the first or the second disjunct true, so \<open>.length\<close> is read of
  strings only.
\<close>

fun invalid_room_id :: "js_value \<Rightarrow> bool" where
  "invalid_room_id (JString s) = (\<not> truthy (JString s) \<or> length s > 10)"
| "invalid_room_id v = True"

fun the_string :: "js_value \<Rightarrow> string" where
  "the_string (JString s) = s"
| "the_string v = []"

text \<open>
  The body of the \<open>join-room\<close> listener of socket \<open>sid\<close>, at time \<open>now\<close>, applied to the
  properties \<open>roomId\<close> and \<open>role\<close> of the payload (the binding of the parameter
  \<open>{ roomId, role }\<close> is in \<open>on_join_room\<close> below). Only a connected socket delivers
  events, so the listener of an unknown socket does nothing. After the two early returns
  the socket enters the socket.io room and records \<open>roomId\<close> and \<open>role\<close>, and only then
  the role is examined.
\<close>

definition join_room ::
  "config \<Rightarrow> int \<Rightarrow> conn_id \<Rightarrow> js_value \<Rightarrow> js_value \<Rightarrow> server \<Rightarrow> server \<times> delivery list" where
  "join_room cfg now sid roomIdv rolev st =
     (case map_of (sockets st) sid of
        None \<Rightarrow> (st, [])
      | Some sock \<Rightarrow>
          if invalid_room_id roomIdv then (st, emit sid (ErrorEv ''Invalid room ID''))
          else
            (let rid = the_string roomIdv in
             if \<not> Map_has rid (rooms st) \<and> int (length (rooms st)) \<ge> maxRooms cfg
             then (st, emit sid (ErrorEv ''Server at capacity''))
             else
               (let st1 = (if \<not> Map_has rid (rooms st)
                           then st\<lparr>rooms := AList.update rid
                                     \<lparr>host = None, listeners = [], createdAt = now\<rparr> (rooms st)\<rparr>
                           else st);
                    sock' = sock\<lparr>joined := Set_add rid (joined sock),
                                 roomId := Some rid, role := rolev\<rparr>;
                    st2 = st1\<lparr>sockets := AList.update sid sock' (sockets st1)\<rparr>
                in if rolev = JString ''host'' then handleHostJoin sid rid st2
                   else if rolev = JString ''listener'' then handleListenerJoin sid rid st2
                   else (st2, []))))"

subsection \<open>Signaling relay\<close>

text \<open>
  \<open>rateLimitSignal(socketId)\<close> at clock reading \<open>now = Date.now()\<close>. The handlers call it
  with the id of their own socket. \<open>signalRateLimit.get(socketId) || 0\<close> is the stored
  reading, or 0 when there is none (a stored 0 is falsy and gives 0 as well).
\<close>

definition rateLimitSignal :: "int \<Rightarrow> conn_id \<Rightarrow> socket \<Rightarrow> bool \<times> socket" where
  "rateLimitSignal now socketId sock =
     (let lastSignal = (case map_of (signalRateLimit sock) socketId of None \<Rightarrow> 0 | Some t \<Rightarrow> t)
      in if now - lastSignal < 50 then (False, sock)
         else (True, sock\<lparr>signalRateLimit := AList.update socketId now (signalRateLimit sock)\<rparr>))"

datatype signal_kind = SigOffer | SigAnswer | SigIceCandidate

fun signal_event :: "signal_kind \<Rightarrow> conn_id \<Rightarrow> js_value \<Rightarrow> event" where
  "signal_event SigOffer from payload = Offer from payload"
| "signal_event SigAnswer from payload = Answer from payload"
| "signal_event SigIceCandidate from payload = IceCandidate from payload"

text \<open>
  The \<open>offer\<close>, \<open>answer\<close> and \<open>ice-candidate\<close> listeners differ in the event name only:
  \<open>if (rateLimitSignal(socket.id)) socket.to(to).emit(kind, { from: socket.id, ... })\<close>.
  \<open>relay\<close> is their body, applied to the properties of the payload (the binding of the
  parameter is in \<open>on_signal\<close> below).
\<close>

definition relay ::
  "int \<Rightarrow> conn_id \<Rightarrow> signal_kind \<Rightarrow> string \<Rightarrow> js_value \<Rightarrow> server \<Rightarrow> server \<times> delivery list" where
  "relay now sid kind to payload st =
     (case map_of (sockets st) sid of
        None \<Rightarrow> (st, [])
      | Some sock \<Rightarrow>
          (case rateLimitSignal now sid sock of
             (True, sock') \<Rightarrow>
               (st\<lparr>sockets := AList.update sid sock' (sockets st)\<rparr>,
                to_emit st sid to (signal_event kind sid payload))
           | (False, sock') \<Rightarrow> (st, [])))"

subsection \<open>Host controls\<close>

text \<open>\<open>if (socket.role === "host" && socket.roomId) socket.to(socket.roomId).emit(ev)\<close>.\<close>

definition host_control :: "event \<Rightarrow> conn_id \<Rightarrow> server \<Rightarrow> server \<times> delivery list" where
  "host_control ev sid st =
     (case map_of (sockets st) sid of
        None \<Rightarrow> (st, [])
      | Some sock \<Rightarrow>
          (case roomId sock of
             None \<Rightarrow> (st, [])
           | Some rid \<Rightarrow>
               if role sock = JString ''host'' \<and> truthy_str (Some rid)
               then (st, to_emit st sid rid ev)
               else (st, [])))"

definition mute_stream :: "conn_id \<Rightarrow> server \<Rightarrow> server \<times> delivery list" where
  "mute_stream = host_control HostMuted"

definition unmute_stream :: "conn_id \<Rightarrow> server \<Rightarrow> server \<times> delivery list" where
  "unmute_stream = host_control HostUnmuted"

subsection \<open>Disconnect\<close>

text \<open>
  \<open>handleDisconnect(socket)\<close>, for the socket \<open>sid\<close> with the fields \<open>sock\<close>, in a state
  from which the socket is already gone.
\<close>

definition handleDisconnect :: "conn_id \<Rightarrow> socket \<Rightarrow> server \<Rightarrow> server \<times> delivery list" where
  "handleDisconnect sid sock st =
     (case roomId sock of
        None \<Rightarrow> (st, [])
      | Some rid \<Rightarrow>
        (if \<not> truthy_str (Some rid) then (st, [])
         else case map_of (rooms st) rid of
           None \<Rightarrow> (st, [])
         | Some room \<Rightarrow>
             if role sock = JString ''host'' \<and> host room = Some sid then
               (let room' = room\<lparr>host := None\<rparr>;
                    out = to_emit st sid rid HostDisconnected
                in if length (listeners room') = 0
                   then (st\<lparr>rooms := AList.delete rid (rooms st)\<rparr>, out)
                   else (st\<lparr>rooms := AList.update rid room' (rooms st)\<rparr>, out))
             else if role sock = JString ''listener'' then
               (let room' = room\<lparr>listeners := Set_delete sid (listeners room)\<rparr>;
                    listenerCount = length (listeners room');
                    out = (case host room' of
                             None \<Rightarrow> []
                           | Some h \<Rightarrow> if h \<noteq> [] then to_emit st sid h (ListenerLeft sid) else []) @
                          to_emit st sid rid (ListenerCountUpdated listenerCount)
                in if \<not> truthy_str (host room') \<and> length (listeners room') = 0
                   then (st\<lparr>rooms := AList.delete rid (rooms st)\<rparr>, out)
                   else (st\<lparr>rooms := AList.update rid room' (rooms st)\<rparr>, out))
             else (st, [])))"

text \<open>
  The \<open>disconnect\<close> listener: \<open>connectionCount--; handleDisconnect(socket);
  signalRateLimit.delete(socket.id)\<close>. socket.io has removed the socket from its rooms
  and from the connected sockets before; the rate-limit map goes with the socket.
\<close>

definition disconnect :: "conn_id \<Rightarrow> server \<Rightarrow> server \<times> delivery list" where
  "disconnect sid st =
     (case map_of (sockets st) sid of
        None \<Rightarrow> (st, [])
      | Some sock \<Rightarrow>
          handleDisconnect sid sock
            (st\<lparr>sockets := AList.delete sid (sockets st),
                connectionCount := connectionCount st - 1\<rparr>))"

text \<open>
  A new connection: \<open>connectionCount++\<close>, and over \<open>maxConnections\<close> the socket gets an
  error and is disconnected before any listener is registered. The transport never gives
  a new socket the id of a connected one.
\<close>

definition connect :: "config \<Rightarrow> conn_id \<Rightarrow> server \<Rightarrow> server \<times> delivery list" where
  "connect cfg sid st =
     (if Map_has sid (sockets st) then (st, [])
      else if connectionCount st + 1 > maxConnections cfg
      then (st, emit sid (ErrorEv ''Server at capacity''))
      else (st\<lparr>sockets := AList.update sid new_socket (sockets st),
               connectionCount := connectionCount st + 1\<rparr>, []))"

subsection \<open>REST endpoints and the periodic sweep\<close>

datatype response =
    NotFound string
  | TooManyRequests string
  | RoomInfo room_id bool nat bool int
  | RoomCreated room_id

text \<open>
  \<open>GET /api/rooms/:roomId\<close>: 404 or
  \<open>{ roomId, hasHost, listenerCount, isActive, createdAt }\<close>.
\<close>

definition get_room :: "room_id \<Rightarrow> server \<Rightarrow> response" where
  "get_room rid st =
     (case map_of (rooms st) rid of
        None \<Rightarrow> NotFound ''Room not found''
      | Some room \<Rightarrow>
          RoomInfo rid (truthy_str (host room)) (length (listeners room))
            (truthy_str (host room)) (createdAt room))"

text \<open>
  \<open>generateRoomId()\<close>: a do-while loop that draws candidates until one is not a key of the
  registry. \<open>rnd n\<close> is the string the \<open>n\<close>-th evaluation of
  \<open>Math.random().toString(36).substring(2, 8).toUpperCase()\<close> gives. The loop need not
  end, so the result is an option.
\<close>

partial_function (option) generateRoomId ::
  "(nat \<Rightarrow> room_id) \<Rightarrow> nat \<Rightarrow> (room_id \<times> room) list \<Rightarrow> room_id option" where
  "generateRoomId rnd n rs =
     (if Map_has (rnd n) rs then generateRoomId rnd (Suc n) rs else Some (rnd n))"

declare generateRoomId.simps [code]

text \<open>\<open>POST /api/rooms\<close>; \<open>None\<close> when \<open>generateRoomId\<close> does not return.\<close>

definition post_rooms ::
  "config \<Rightarrow> int \<Rightarrow> (nat \<Rightarrow> room_id) \<Rightarrow> server \<Rightarrow> (server \<times> response) option" where
  "post_rooms cfg now rnd st =
     (if int (length (rooms st)) \<ge> maxRooms cfg
      then Some (st, TooManyRequests ''Maximum number of rooms reached'')
      else
        (case generateRoomId rnd 0 (rooms st) of
           None \<Rightarrow> None
         | Some rid \<Rightarrow>
             Some ((if \<not> Map_has rid (rooms st)
                    then st\<lparr>rooms := AList.update rid
                              \<lparr>host = None, listeners = [], createdAt = now\<rparr> (rooms st)\<rparr>
                    else st),
                   RoomCreated rid)))"

text \<open>
  The interval callback: every room with no host, no listeners and an age over
  \<open>config.roomTimeout\<close> hours is deleted.
\<close>

definition sweep :: "config \<Rightarrow> int \<Rightarrow> server \<Rightarrow> server" where
  "sweep cfg now st =
     (let maxAge = roomTimeout cfg * 60 * 60 * 1000
      in st\<lparr>rooms := filter (\<lambda>(rid, room).
                 \<not> (\<not> truthy_str (host room) \<and> length (listeners room) = 0 \<and>
                    now - createdAt room > maxAge)) (rooms st)\<rparr>)"

subsection \<open>The payload of an event\<close>

text \<open>
  The listeners of \<open>join-room\<close>, \<open>offer\<close>, \<open>answer\<close> and \<open>ice-candidate\<close> destructure
  their parameter: \<open>({ roomId, role }) => ...\<close>, \<open>({ to, offer }) => ...\<close>. A client
  may send the event with no payload, or with \<open>null\<close>; binding the parameter then throws
  a \<open>TypeError\<close> before the first statement of the body, nothing catches it, and the
  process exits. Of any other payload the named properties are read, \<open>undefined\<close> where
  the payload has none (so also of a number, a string or a boolean).
  \<open>join_room\<close> and \<open>relay\<close> above are the bodies of the listeners, applied to the
  properties; \<open>on_join_room\<close> and \<open>on_signal\<close> are the listeners.
\<close>

datatype 'a payload = NoPayload | NullPayload | Properties 'a

datatype error = TypeError

fun destructure :: "'a payload \<Rightarrow> error + 'a" where
  "destructure NoPayload = Inl TypeError"
| "destructure NullPayload = Inl TypeError"
| "destructure (Properties x) = Inr x"

definition on_join_room ::
  "config \<Rightarrow> int \<Rightarrow> conn_id \<Rightarrow> (js_value \<times> js_value) payload \<Rightarrow> server
     \<Rightarrow> error + server \<times> delivery list" where
  "on_join_room cfg now sid p st =
     (case map_of (sockets st) sid of
        None \<Rightarrow> Inr (st, [])
      | Some sock \<Rightarrow>
          (case destructure p of
             Inl e \<Rightarrow> Inl e
           | Inr (roomIdv, rolev) \<Rightarrow> Inr (join_room cfg now sid roomIdv rolev st)))"

definition on_signal ::
  "int \<Rightarrow> conn_id \<Rightarrow> signal_kind \<Rightarrow> (string \<times> js_value) payload \<Rightarrow> server
     \<Rightarrow> error + server \<times> delivery list" where
  "on_signal now sid kind p st =
     (case map_of (sockets st) sid of
        None \<Rightarrow> Inr (st, [])
      | Some sock \<Rightarrow>
          (case destructure p of
             Inl e \<Rightarrow> Inl e
           | Inr (to, body) \<Rightarrow> Inr (relay now sid kind to body st)))"

subsection \<open>Runs of the server\<close>

text \<open>
  What the server reacts to: the socket.io events of a socket, a \<open>POST /api/rooms\<close>
  request (with the candidates \<open>generateRoomId\<close> will draw) and a tick of the sweep
  interval. \<open>JoinRoom\<close> and \<open>Signal\<close> are the events with a payload, given by its
  properties; \<open>JoinRoomNoPayload\<close> and \<open>SignalNoPayload\<close> are the same events sent
  with no payload or with \<open>null\<close>. A run is a list of inputs, each with the clock reading
  at which its handler runs. A step has no result when the server does not get to a next
  state: when the listener throws and the process exits, or when \<open>generateRoomId\<close> does
  not return.
\<close>

datatype input =
    Connect conn_id
  | JoinRoom conn_id js_value js_value
  | Signal conn_id signal_kind string js_value
  | MuteStream conn_id
  | UnmuteStream conn_id
  | Disconnect conn_id
  | PostRooms "nat \<Rightarrow> room_id"
  | Sweep
  | JoinRoomNoPayload conn_id
  | SignalNoPayload conn_id signal_kind

fun step :: "config \<Rightarrow> int \<Rightarrow> input \<Rightarrow> server \<Rightarrow> (server \<times> delivery list) option" where
  "step cfg now (Connect sid) st = Some (connect cfg sid st)"
| "step cfg now (JoinRoom sid roomIdv rolev) st = Some (join_room cfg now sid roomIdv rolev st)"
| "step cfg now (Signal sid kind to payload) st = Some (relay now sid kind to payload st)"
| "step cfg now (MuteStream sid) st = Some (mute_stream sid st)"
| "step cfg now (UnmuteStream sid) st = Some (unmute_stream sid st)"
| "step cfg now (Disconnect sid) st = Some (disconnect sid st)"
| "step cfg now (PostRooms rnd) st =
     (case post_rooms cfg now rnd st of None \<Rightarrow> None | Some (st', resp) \<Rightarrow> Some (st', []))"
| "step cfg now Sweep st = Some (sweep cfg now st, [])"
| "step cfg now (JoinRoomNoPayload sid) st =
     (case on_join_room cfg now sid NoPayload st of Inl e \<Rightarrow> None | Inr r \<Rightarrow> Some r)"
| "step cfg now (SignalNoPayload sid kind) st =
     (case on_signal now sid kind NoPayload st of Inl e \<Rightarrow> None | Inr r \<Rightarrow> Some r)"

fun run :: "config \<Rightarrow> (int \<times> input) list \<Rightarrow> server \<Rightarrow> (server \<times> delivery list) option" where
  "run cfg [] st = Some (st, [])"
| "run cfg ((now, i) # es) st =
     (case step cfg now i st of
        None \<Rightarrow> None
      | Some (st', out) \<Rightarrow>
          (case run cfg es st' of
             None \<Rightarrow> None
           | Some (st'', outs) \<Rightarrow> Some (st'', out @ outs)))"

fun is_join :: "input \<Rightarrow> bool" where
  "is_join (JoinRoom sid roomIdv rolev) = True"
| "is_join i = False"

text \<open>
  A signaling message of \<open>sid\<close> is forwarded when \<open>rateLimitSignal\<close> returns true in its
  handler (the target of the message need not be connected). \<open>forwarded_times\<close> collects
  the clock readings of the forwarded messages of \<open>sid\<close> along a run.
\<close>

fun is_signal_of :: "conn_id \<Rightarrow> input \<Rightarrow> bool" where
  "is_signal_of sid (Signal c kind to payload) = (c = sid)"
| "is_signal_of sid i = False"

definition forwards :: "int \<Rightarrow> conn_id \<Rightarrow> server \<Rightarrow> bool" where
  "forwards now sid st =
     (case map_of (sockets st) sid of
        None \<Rightarrow> False
      | Some sock \<Rightarrow> fst (rateLimitSignal now sid sock))"

fun forwarded_times :: "config \<Rightarrow> conn_id \<Rightarrow> (int \<times> input) list \<Rightarrow> server \<Rightarrow> int list" where
  "forwarded_times cfg sid [] st = []"
| "forwarded_times cfg sid ((now, i) # es) st =
     (case step cfg now i st of
        None \<Rightarrow> []
      | Some (st', out) \<Rightarrow>
          (if is_signal_of sid i \<and> forwards now sid st then [now] else []) @
          forwarded_times cfg sid es st')"

subsection \<open>Example states\<close>

definition cfg0 :: config where
  "cfg0 = \<lparr>maxRooms = 2, roomTimeout = 12, maxConnections = 100\<rparr>"

text \<open>Four connected sockets, none of which has joined a room.\<close>

definition st_connected :: server where
  "st_connected =
     \<lparr>rooms = [],
      sockets = [(''H'', new_socket), (''L1'', new_socket), (''L2'', new_socket),
                 (''B'', new_socket)],
      connectionCount = 4\<rparr>"

text \<open>Room R1 with host H and the listeners L1 and L2; B is connected and has not joined.\<close>

definition st_hosted :: server where
  "st_hosted =
     \<lparr>rooms = [(''R1'', \<lparr>host = Some ''H'', listeners = [''L1'', ''L2''], createdAt = 1000\<rparr>)],
      sockets =
        [(''H'', \<lparr>roomId = Some ''R1'', role = JString ''host'', joined = [''R1''],
                  signalRateLimit = []\<rparr>),
         (''L1'', \<lparr>roomId = Some ''R1'', role = JString ''listener'', joined = [''R1''],
                   signalRateLimit = []\<rparr>),
         (''L2'', \<lparr>roomId = Some ''R1'', role = JString ''listener'', joined = [''R1''],
                   signalRateLimit = []\<rparr>),
         (''B'', new_socket)],
      connectionCount = 4\<rparr>"

text \<open>The state after B has asked to join R1 as a second host.\<close>

definition st_rejected :: server where
  "st_rejected =
     st_hosted\<lparr>sockets :=
        [(''H'', \<lparr>roomId = Some ''R1'', role = JString ''host'', joined = [''R1''],
                  signalRateLimit = []\<rparr>),
         (''L1'', \<lparr>roomId = Some ''R1'', role = JString ''listener'', joined = [''R1''],
                   signalRateLimit = []\<rparr>),
         (''L2'', \<lparr>roomId = Some ''R1'', role = JString ''listener'', joined = [''R1''],
                   signalRateLimit = []\<rparr>),
         (''B'', \<lparr>roomId = Some ''R1'', role = JString ''host'', joined = [''R1''],
                  signalRateLimit = []\<rparr>)]\<rparr>"

text \<open>The state after the host H has sent a second \<open>join-room\<close> for R1, as a listener.\<close>

definition st_rejoined :: server where
  "st_rejoined =
     \<lparr>rooms = [(''R1'', \<lparr>host = Some ''H'', listeners = [''L1'', ''L2'', ''H''],
                         createdAt = 1000\<rparr>)],
      sockets =
        [(''H'', \<lparr>roomId = Some ''R1'', role = JString ''listener'', joined = [''R1''],
                  signalRateLimit = []\<rparr>),
         (''L1'', \<lparr>roomId = Some ''R1'', role = JString ''listener'', joined = [''R1''],
                   signalRateLimit = []\<rparr>),
         (''L2'', \<lparr>roomId = Some ''R1'', role = JString ''listener'', joined = [''R1''],
                   signalRateLimit = []\<rparr>),
         (''B'', new_socket)],
      connectionCount = 4\<rparr>"

text \<open>A registry that holds \<open>maxRooms cfg0\<close> rooms.\<close>

definition st_full :: server where
  "st_full =
     \<lparr>rooms = [(''R1'', \<lparr>host = None, listeners = [], createdAt = 1000\<rparr>),
               (''R2'', \<lparr>host = None, listeners = [], createdAt = 2000\<rparr>)],
      sockets = [(''B'', new_socket)],
      connectionCount = 1\<rparr>"

subsection \<open>Auxiliary definitions for the proofs\<close>

text \<open>
  The state in which the \<open>join-room\<close> handler examines the role: the room exists
  (created at \<open>now\<close> if it was absent), the socket is in the socket.io room and
  \<open>socket.roomId\<close> and \<open>socket.role\<close> are written.
\<close>

definition joined_state ::
  "int \<Rightarrow> conn_id \<Rightarrow> socket \<Rightarrow> room_id \<Rightarrow> js_value \<Rightarrow> server \<Rightarrow> server" where
  "joined_state now sid sock rid rolev st =
     (if \<not> Map_has rid (rooms st)
      then st\<lparr>rooms := AList.update rid \<lparr>host = None, listeners = [], createdAt = now\<rparr> (rooms st)\<rparr>
      else st)\<lparr>sockets := AList.update sid
                (sock\<lparr>joined := Set_add rid (joined sock), roomId := Some rid, role := rolev\<rparr>)
                (sockets st)\<rparr>"

text \<open>The value \<open>lastSignal\<close> that \<open>rateLimitSignal\<close> reads for socket \<open>sid\<close>.\<close>

definition last_signal :: "server \<Rightarrow> conn_id \<Rightarrow> int" where
  "last_signal st sid =
     (case map_of (sockets st) sid of
        None \<Rightarrow> 0
      | Some sock \<Rightarrow> (case map_of (signalRateLimit sock) sid of None \<Rightarrow> 0 | Some t \<Rightarrow> t))"

text \<open>
  The invariant that ties the registry to socket.io: the keys of both maps are distinct,
  and every connected socket that a room records as its host or among its listeners has
  entered the socket.io room of that room id. \<open>subscribed_map\<close> states the last part with
  lookups.
\<close>

definition members_subscribed :: "server \<Rightarrow> bool" where
  "members_subscribed st =
     (distinct (map fst (rooms st)) \<and> distinct (map fst (sockets st)) \<and>
      (\<forall>(rid, room) \<in> set (rooms st). \<forall>(c, sock) \<in> set (sockets st).
         host room = Some c \<or> c \<in> set (listeners room) \<longrightarrow> rid \<in> set (joined sock)))"

definition subscribed_map :: "server \<Rightarrow> bool" where
  "subscribed_map st =
     (\<forall>rid room c sock. map_of (rooms st) rid = Some room \<longrightarrow> map_of (sockets st) c = Some sock \<longrightarrow>
        host room = Some c \<or> c \<in> set (listeners room) \<longrightarrow> rid \<in> set (joined sock))"

text \<open>
  socket.io draws the id of a new socket at random. \<open>fresh_id\<close> says that no room still
  records the id (as a socket that is gone), \<open>fresh_connects\<close> that this holds for every
  connection of a run.
\<close>

definition fresh_id :: "server \<Rightarrow> conn_id \<Rightarrow> bool" where
  "fresh_id st c =
     (\<forall>(rid, room) \<in> set (rooms st). host room \<noteq> Some c \<and> c \<notin> set (listeners room))"

fun fresh_connects :: "config \<Rightarrow> (int \<times> input) list \<Rightarrow> server \<Rightarrow> bool" where
  "fresh_connects cfg [] st = True"
| "fresh_connects cfg ((now, i) # es) st =
     ((case i of Connect c \<Rightarrow> fresh_id st c | _ \<Rightarrow> True) \<and>
      (case step cfg now i st of
         None \<Rightarrow> True
       | Some (st', out) \<Rightarrow> fresh_connects cfg es st'))"

section \<open>Properties\<close>

subsection \<open>Association lists, delivery and evaluation\<close>

lemma map_of_update:
  "map_of (AList.update k v m) k' = (if k' = k then Some v else map_of m k')"
  by (simp add: update_conv')

lemma map_of_delete:
  "map_of (AList.delete k m) k' = (if k' = k then None else map_of m k')"
  by (simp add: delete_conv')


lemma mem_update_other:
  "c \<noteq> k \<Longrightarrow> (c, s) \<in> set (AList.update k v m) \<longleftrightarrow> (c, s) \<in> set m"
  by (induction m) auto

lemma map_of_filter_None: "map_of m k = None \<Longrightarrow> map_of (filter P m) k = None"
  by (induction m) auto

lemma map_of_filter_distinct:
  "distinct (map fst m) \<Longrightarrow>
     map_of (filter P m) k =
       (case map_of m k of None \<Rightarrow> None | Some v \<Rightarrow> if P (k, v) then Some v else None)"
proof (induction m)
  case Nil
  then show ?case by simp
next
  case (Cons p m)
  then have "fst p = k \<Longrightarrow> map_of m k = None"
    by (auto simp: map_of_eq_None_iff)
  then show ?case using Cons by (cases p) (auto simp: map_of_filter_None)
qed

lemma mem_to_emit:
  "(c, ev') \<in> set (to_emit st sid ch ev) \<longleftrightarrow>
     ev' = ev \<and> c \<noteq> sid \<and> (\<exists>sock. (c, sock) \<in> set (sockets st) \<and> in_channel ch (c, sock))"
  unfolding to_emit_def by force

lemma sender_not_in_to_emit: "(sid, ev') \<notin> set (to_emit st sid ch ev)"
  by (simp add: mem_to_emit)

lemmas handler_defs =
  join_room_def handleHostJoin_def handleListenerJoin_def handleDisconnect_def disconnect_def
  connect_def relay_def rateLimitSignal_def host_control_def mute_stream_def unmute_stream_def
  get_room_def sweep_def post_rooms_def
  Map_has_def Set_add_def Set_delete_def emit_def to_emit_def in_channel_def new_socket_def Let_def

lemmas example_defs =
  cfg0_def st_connected_def st_hosted_def st_rejected_def st_rejoined_def st_full_def

text \<open>The example states are states of runs from the initial state.\<close>

lemma st_connected_reachable:
  "run cfg0 [(0, Connect ''H''), (1, Connect ''L1''), (2, Connect ''L2''), (3, Connect ''B'')]
     init_server = Some (st_connected, [])"
  by (simp add: handler_defs example_defs init_server_def)

lemma st_hosted_reachable:
  "run cfg0
     [(1000, JoinRoom ''H'' (JString ''R1'') (JString ''host'')),
      (1001, JoinRoom ''L1'' (JString ''R1'') (JString ''listener'')),
      (1002, JoinRoom ''L2'' (JString ''R1'') (JString ''listener''))]
     st_connected
   = Some (st_hosted,
       [(''H'', HostJoined ''R1''),
        (''L1'', ListenerJoinedRoom ''R1''), (''H'', ListenerJoined ''L1''),
        (''L1'', HostConnected), (''H'', ListenerCountUpdated 1),
        (''L2'', ListenerJoinedRoom ''R1''), (''H'', ListenerJoined ''L2''),
        (''L2'', HostConnected), (''H'', ListenerCountUpdated 2),
        (''L1'', ListenerCountUpdated 2)])"
  by (simp add: handler_defs example_defs)

subsection \<open>Frame lemmas of the handlers\<close>

lemma sockets_handleHostJoin: "sockets (fst (handleHostJoin sid rid st)) = sockets st"
  by (simp add: handleHostJoin_def split: option.splits)

lemma sockets_handleListenerJoin: "sockets (fst (handleListenerJoin sid rid st)) = sockets st"
  by (simp add: handleListenerJoin_def Let_def split: option.splits)

lemma sockets_handleDisconnect: "sockets (fst (handleDisconnect sid sock st)) = sockets st"
  by (simp add: handleDisconnect_def Let_def split: option.splits)

lemma fst_host_control: "fst (host_control ev c st) = st"
  by (simp add: host_control_def split: option.splits)

lemma rooms_connect: "rooms (fst (connect cfg sid st)) = rooms st"
  by (simp add: connect_def)

lemma rooms_relay: "rooms (fst (relay now sid kind to payload st)) = rooms st"
  by (simp add: relay_def split: option.splits prod.splits bool.splits)

lemma sockets_post_rooms: "post_rooms cfg now rnd st = Some (st', r) \<Longrightarrow> sockets st' = sockets st"
  by (auto simp: post_rooms_def split: if_splits option.splits)

text \<open>
  With a payload the listeners are their bodies; with none they throw when the socket is
  connected, and in no case change the state.
\<close>

lemma on_join_room_Properties:
  "on_join_room cfg now sid (Properties (roomIdv, rolev)) st
     = Inr (join_room cfg now sid roomIdv rolev st)"
  by (simp add: on_join_room_def join_room_def split: option.splits)

lemma on_signal_Properties:
  "on_signal now sid kind (Properties (to, body)) st = Inr (relay now sid kind to body st)"
  by (simp add: on_signal_def relay_def split: option.splits)

lemma on_join_room_no_payload:
  "map_of (sockets st) sid = Some sock \<Longrightarrow> on_join_room cfg now sid NoPayload st = Inl TypeError"
  "map_of (sockets st) sid = Some sock \<Longrightarrow> on_join_room cfg now sid NullPayload st = Inl TypeError"
  by (simp_all add: on_join_room_def)

lemma step_no_payload:
  "step cfg now (JoinRoomNoPayload c) st = Some (st', out) \<Longrightarrow> st' = st"
  "step cfg now (SignalNoPayload c kind) st = Some (st', out) \<Longrightarrow> st' = st"
  by (auto simp: on_join_room_def on_signal_def split: option.splits)

lemma join_room_admitted:
  assumes "map_of (sockets st) sid = Some sock" and "rid \<noteq> []" and "length rid \<le> 10"
      and "Map_has rid (rooms st) \<or> int (length (rooms st)) < maxRooms cfg"
  shows "join_room cfg now sid (JString rid) rolev st =
       (if rolev = JString ''host'' then handleHostJoin sid rid (joined_state now sid sock rid rolev st)
        else if rolev = JString ''listener'' then handleListenerJoin sid rid (joined_state now sid sock rid rolev st)
        else (joined_state now sid sock rid rolev st, []))"
  using assms by (auto simp: join_room_def joined_state_def Let_def)

lemma joined_state_simps:
  "sockets (joined_state now sid sock rid rolev st) = AList.update sid
                (sock\<lparr>joined := Set_add rid (joined sock), roomId := Some rid, role := rolev\<rparr>)
                (sockets st)"
  "map_of (rooms (joined_state now sid sock rid rolev st)) rid' =
     (if rid' = rid \<and> map_of (rooms st) rid = None
      then Some \<lparr>host = None, listeners = [], createdAt = now\<rparr>
      else map_of (rooms st) rid')"
  "connectionCount (joined_state now sid sock rid rolev st) = connectionCount st"
  by (auto simp: joined_state_def map_of_update Map_has_def)

text \<open>The keys of the registry stay distinct along every run.\<close>

lemma distinct_joined_state:
  "distinct (map fst (rooms st)) \<Longrightarrow> distinct (map fst (rooms (joined_state now sid sock rid rolev st)))"
  by (simp add: joined_state_def distinct_update)

lemma distinct_handleHostJoin:
  "distinct (map fst (rooms st)) \<Longrightarrow> distinct (map fst (rooms (fst (handleHostJoin sid rid st))))"
  by (simp add: handleHostJoin_def distinct_update split: option.splits)

lemma distinct_handleListenerJoin:
  "distinct (map fst (rooms st)) \<Longrightarrow> distinct (map fst (rooms (fst (handleListenerJoin sid rid st))))"
  by (simp add: handleListenerJoin_def Let_def distinct_update split: option.splits)

lemma distinct_handleDisconnect:
  "distinct (map fst (rooms st)) \<Longrightarrow> distinct (map fst (rooms (fst (handleDisconnect sid sock st))))"
  by (simp add: handleDisconnect_def Let_def distinct_update distinct_delete split: option.splits)

lemma distinct_join_room:
  assumes "distinct (map fst (rooms st))"
  shows "distinct (map fst (rooms (fst (join_room cfg now sid roomIdv rolev st))))"
proof (cases "map_of (sockets st) sid")
  case None
  then show ?thesis using assms by (simp add: join_room_def)
next
  case (Some sock)
  show ?thesis
  proof (cases "invalid_room_id roomIdv \<or>
      (\<not> Map_has (the_string roomIdv) (rooms st) \<and> maxRooms cfg \<le> int (length (rooms st)))")
    case True
    then show ?thesis using Some assms by (auto simp: join_room_def)
  next
    case False
    then obtain rid where rid: "roomIdv = JString rid" "rid \<noteq> []" "length rid \<le> 10"
      by (cases roomIdv) auto
    from False rid have cap: "Map_has rid (rooms st) \<or> int (length (rooms st)) < maxRooms cfg"
      by auto
    show ?thesis
      unfolding rid(1) join_room_admitted [OF Some rid(2,3) cap]
      using distinct_joined_state [OF assms, of now sid sock rid rolev]
      by (auto simp: distinct_handleHostJoin distinct_handleListenerJoin)
  qed
qed

lemma distinct_disconnect:
  "distinct (map fst (rooms st)) \<Longrightarrow> distinct (map fst (rooms (fst (disconnect sid st))))"
  by (simp add: disconnect_def distinct_handleDisconnect split: option.splits)

lemma distinct_post_rooms:
  "post_rooms cfg now rnd st = Some (st', r) \<Longrightarrow> distinct (map fst (rooms st))
     \<Longrightarrow> distinct (map fst (rooms st'))"
  by (auto simp: post_rooms_def distinct_update split: if_splits option.splits)

lemma distinct_sweep:
  "distinct (map fst (rooms st)) \<Longrightarrow> distinct (map fst (rooms (sweep cfg now st)))"
  by (simp add: sweep_def Let_def distinct_map_filter)

lemma step_distinct_rooms:
  assumes "step cfg now i st = Some (st', out)" and "distinct (map fst (rooms st))"
  shows "distinct (map fst (rooms st'))"
proof (cases i)
  case (Connect c)
  with assms(1) have "st' = fst (connect cfg c st)" by auto
  then show ?thesis using assms(2) by (simp add: rooms_connect)
next
  case (JoinRoom c roomIdv rolev)
  with assms(1) have "st' = fst (join_room cfg now c roomIdv rolev st)" by auto
  then show ?thesis using assms(2) by (simp add: distinct_join_room)
next
  case (Signal c kind to payload)
  with assms(1) have "st' = fst (relay now c kind to payload st)" by auto
  then show ?thesis using assms(2) by (simp add: rooms_relay)
next
  case (MuteStream c)
  with assms(1) have "st' = fst (host_control HostMuted c st)" by (auto simp: mute_stream_def)
  then show ?thesis using assms(2) by (simp add: fst_host_control)
next
  case (UnmuteStream c)
  with assms(1) have "st' = fst (host_control HostUnmuted c st)" by (auto simp: unmute_stream_def)
  then show ?thesis using assms(2) by (simp add: fst_host_control)
next
  case (Disconnect c)
  with assms(1) have "st' = fst (disconnect c st)" by auto
  then show ?thesis using assms(2) by (simp add: distinct_disconnect)
next
  case (PostRooms rnd)
  with assms(1) obtain r where "post_rooms cfg now rnd st = Some (st', r)"
    by (auto split: option.splits)
  then show ?thesis using assms(2) by (rule distinct_post_rooms)
next
  case Sweep
  with assms(1) have "st' = sweep cfg now st" by simp
  then show ?thesis using assms(2) by (simp add: distinct_sweep)
next
  case (JoinRoomNoPayload c)
  from assms(1) [unfolded JoinRoomNoPayload] have "st' = st" by (rule step_no_payload(1))
  then show ?thesis using assms(2) by simp
next
  case (SignalNoPayload c kind)
  from assms(1) [unfolded SignalNoPayload] have "st' = st" by (rule step_no_payload(2))
  then show ?thesis using assms(2) by simp
qed

lemma run_distinct_rooms:
  "run cfg es st = Some (st', out) \<Longrightarrow> distinct (map fst (rooms st))
     \<Longrightarrow> distinct (map fst (rooms st'))"
proof (induction es arbitrary: st out)
  case Nil
  then show ?case by simp
next
  case (Cons e es)
  obtain now i where e: "e = (now, i)" by (cases e)
  from Cons.prems(1) obtain st1 out1 out2 where
    s: "step cfg now i st = Some (st1, out1)" and r: "run cfg es st1 = Some (st', out2)"
    by (auto simp: e split: option.splits)
  from step_distinct_rooms [OF s Cons.prems(2)] Cons.IH [OF r] show ?case by simp
qed

subsection \<open>Members of a room are in its socket.io room\<close>

lemma members_subscribed_iff:
  "members_subscribed st \<longleftrightarrow>
     distinct (map fst (rooms st)) \<and> distinct (map fst (sockets st)) \<and> subscribed_map st"
proof (cases "distinct (map fst (rooms st)) \<and> distinct (map fst (sockets st))")
  case True
  then have eq: "\<And>rid room. map_of (rooms st) rid = Some room \<longleftrightarrow> (rid, room) \<in> set (rooms st)"
    "\<And>c sock. map_of (sockets st) c = Some sock \<longleftrightarrow> (c, sock) \<in> set (sockets st)"
    by simp_all
  have "subscribed_map st \<longleftrightarrow>
      (\<forall>(rid, room) \<in> set (rooms st). \<forall>(c, sock) \<in> set (sockets st).
         host room = Some c \<or> c \<in> set (listeners room) \<longrightarrow> rid \<in> set (joined sock))"
    unfolding subscribed_map_def eq by fast
  then show ?thesis using True by (simp add: members_subscribed_def)
next
  case False
  then show ?thesis by (auto simp: members_subscribed_def)
qed

lemma subscribed_map_handleHostJoin:
  assumes "subscribed_map st"
      and "\<And>sock. map_of (sockets st) sid = Some sock \<Longrightarrow> rid \<in> set (joined sock)"
  shows "subscribed_map (fst (handleHostJoin sid rid st))"
proof (cases "map_of (rooms st) rid")
  case None
  then show ?thesis using assms(1) by (simp add: handleHostJoin_def)
next
  case (Some room)
  show ?thesis
  proof (cases "truthy_str (host room)")
    case True
    then show ?thesis using assms(1) Some by (simp add: handleHostJoin_def)
  next
    case False
    then have st': "fst (handleHostJoin sid rid st)
        = st\<lparr>rooms := AList.update rid (room\<lparr>host := Some sid\<rparr>) (rooms st)\<rparr>"
      using Some by (simp add: handleHostJoin_def)
    show ?thesis
      unfolding st' subscribed_map_def
      using assms Some by (auto simp: subscribed_map_def map_of_update split: if_splits)
  qed
qed

lemma subscribed_map_handleListenerJoin:
  assumes "subscribed_map st"
      and "\<And>sock. map_of (sockets st) sid = Some sock \<Longrightarrow> rid \<in> set (joined sock)"
  shows "subscribed_map (fst (handleListenerJoin sid rid st))"
proof (cases "map_of (rooms st) rid")
  case None
  then show ?thesis using assms(1) by (simp add: handleListenerJoin_def)
next
  case (Some room)
  then have st': "fst (handleListenerJoin sid rid st)
      = st\<lparr>rooms := AList.update rid (room\<lparr>listeners := Set_add sid (listeners room)\<rparr>) (rooms st)\<rparr>"
    by (simp add: handleListenerJoin_def Let_def)
  show ?thesis
    unfolding st' subscribed_map_def
    using assms Some by (auto simp: subscribed_map_def map_of_update Set_add_def split: if_splits)
qed

lemma subscribed_map_joined_state:
  assumes "subscribed_map st" and "map_of (sockets st) sid = Some sock"
  shows "subscribed_map (joined_state now sid sock rid rolev st)"
  unfolding subscribed_map_def
  using assms
  by (auto simp: subscribed_map_def joined_state_simps map_of_update Set_add_def split: if_splits)

lemma subscribed_map_join_room:
  assumes "subscribed_map st"
  shows "subscribed_map (fst (join_room cfg now sid roomIdv rolev st))"
proof (cases "map_of (sockets st) sid")
  case None
  then show ?thesis using assms by (simp add: join_room_def)
next
  case (Some sock)
  show ?thesis
  proof (cases "invalid_room_id roomIdv \<or>
      (\<not> Map_has (the_string roomIdv) (rooms st) \<and> maxRooms cfg \<le> int (length (rooms st)))")
    case True
    then show ?thesis using Some assms by (auto simp: join_room_def)
  next
    case False
    then obtain rid where rid: "roomIdv = JString rid" "rid \<noteq> []" "length rid \<le> 10"
      by (cases roomIdv) auto
    from False rid have cap: "Map_has rid (rooms st) \<or> int (length (rooms st)) < maxRooms cfg"
      by auto
    let ?js = "joined_state now sid sock rid rolev st"
    have js: "subscribed_map ?js" using assms Some by (rule subscribed_map_joined_state)
    have mem: "\<And>s. map_of (sockets ?js) sid = Some s \<Longrightarrow> rid \<in> set (joined s)"
      by (auto simp: joined_state_simps map_of_update Set_add_def)
    show ?thesis
      unfolding rid(1) join_room_admitted [OF Some rid(2,3) cap]
      using js subscribed_map_handleHostJoin [OF js mem] subscribed_map_handleListenerJoin [OF js mem]
      by auto
  qed
qed

lemma subscribed_map_handleDisconnect:
  assumes "subscribed_map st"
  shows "subscribed_map (fst (handleDisconnect sid sock st))"
proof -
  have upd: "subscribed_map (st\<lparr>rooms := AList.update rid room' (rooms st)\<rparr>)"
    if "map_of (rooms st) rid = Some room" "host room' = None \<or> host room' = host room"
       "set (listeners room') \<subseteq> set (listeners room)" for rid room room'
    unfolding subscribed_map_def
    using assms that by (auto simp: subscribed_map_def map_of_update split: if_splits)
  have del: "subscribed_map (st\<lparr>rooms := AList.delete rid (rooms st)\<rparr>)" for rid
    unfolding subscribed_map_def
    using assms by (auto simp: subscribed_map_def map_of_delete split: if_splits)
  show ?thesis
  proof (cases "roomId sock")
    case None
    then show ?thesis using assms by (simp add: handleDisconnect_def)
  next
    case (Some rid)
    show ?thesis
    proof (cases "map_of (rooms st) rid")
      case None
      then show ?thesis using assms Some by (simp add: handleDisconnect_def)
    next
      case (Some room)
      have h: "subscribed_map (st\<lparr>rooms := AList.update rid (room\<lparr>host := None\<rparr>) (rooms st)\<rparr>)"
        by (rule upd [OF Some]) simp_all
      have l: "subscribed_map (st\<lparr>rooms := AList.update rid
            (room\<lparr>listeners := Set_delete sid (listeners room)\<rparr>) (rooms st)\<rparr>)"
        by (rule upd [OF Some]) (auto simp: Set_delete_def)
      show ?thesis
        using \<open>roomId sock = Some rid\<close> Some assms h l del [of rid]
        by (simp add: handleDisconnect_def Let_def)
    qed
  qed
qed

lemma subscribed_map_disconnect:
  assumes "subscribed_map st"
  shows "subscribed_map (fst (disconnect sid st))"
proof (cases "map_of (sockets st) sid")
  case None
  then show ?thesis using assms by (simp add: disconnect_def)
next
  case (Some sock)
  have "subscribed_map (st\<lparr>sockets := AList.delete sid (sockets st),
                connectionCount := connectionCount st - 1\<rparr>)"
    unfolding subscribed_map_def
    using assms by (auto simp: subscribed_map_def map_of_delete split: if_splits)
  then show ?thesis using Some by (simp add: disconnect_def subscribed_map_handleDisconnect)
qed

lemma fresh_id_map:
  "fresh_id st c \<Longrightarrow> map_of (rooms st) rid = Some room
     \<Longrightarrow> host room \<noteq> Some c \<and> c \<notin> set (listeners room)"
  by (auto simp: fresh_id_def dest!: map_of_SomeD)

lemma subscribed_map_connect:
  assumes "subscribed_map st" and "fresh_id st sid"
  shows "subscribed_map (fst (connect cfg sid st))"
proof (cases "Map_has sid (sockets st) \<or> maxConnections cfg < connectionCount st + 1")
  case True
  then show ?thesis using assms by (auto simp: connect_def)
next
  case False
  then have st': "fst (connect cfg sid st) = st\<lparr>sockets := AList.update sid new_socket (sockets st),
               connectionCount := connectionCount st + 1\<rparr>"
    by (auto simp: connect_def)
  show ?thesis
    unfolding st' subscribed_map_def
    using assms(1) fresh_id_map [OF assms(2)]
    by (auto simp: subscribed_map_def map_of_update split: if_splits)
qed

lemma joined_relay:
  "map_option joined (map_of (sockets (fst (relay now sid kind to payload st))) c)
     = map_option joined (map_of (sockets st) c)"
proof (cases "map_of (sockets st) sid")
  case None
  then show ?thesis by (simp add: relay_def)
next
  case (Some sock)
  show ?thesis
  proof (cases "fst (rateLimitSignal now sid sock)")
    case True
    then have "rateLimitSignal now sid sock =
        (True, sock\<lparr>signalRateLimit := AList.update sid now (signalRateLimit sock)\<rparr>)"
      by (auto simp: rateLimitSignal_def Let_def split: if_splits)
    then show ?thesis using Some by (auto simp: relay_def map_of_update)
  next
    case False
    then have "rateLimitSignal now sid sock = (False, sock)"
      by (auto simp: rateLimitSignal_def Let_def split: if_splits)
    then show ?thesis using Some by (simp add: relay_def)
  qed
qed

lemma subscribed_map_relay:
  assumes "subscribed_map st"
  shows "subscribed_map (fst (relay now sid kind to payload st))"
  unfolding subscribed_map_def
proof (intro allI impI)
  fix rid room c sock
  assume r: "map_of (rooms (fst (relay now sid kind to payload st))) rid = Some room"
    and s: "map_of (sockets (fst (relay now sid kind to payload st))) c = Some sock"
    and m: "host room = Some c \<or> c \<in> set (listeners room)"
  from s joined_relay [of now sid kind to payload st c]
  obtain sock0 where "map_of (sockets st) c = Some sock0" "joined sock0 = joined sock"
    by (cases "map_of (sockets st) c") auto
  moreover from r have "map_of (rooms st) rid = Some room" by (simp add: rooms_relay)
  ultimately show "rid \<in> set (joined sock)"
    using assms m unfolding subscribed_map_def by metis
qed

lemma subscribed_map_post_rooms:
  assumes "post_rooms cfg now rnd st = Some (st', r)" and "subscribed_map st"
  shows "subscribed_map st'"
proof -
  from assms(1) have "st' = st \<or> (\<exists>rid. map_of (rooms st) rid = None \<and>
      st' = st\<lparr>rooms := AList.update rid \<lparr>host = None, listeners = [], createdAt = now\<rparr> (rooms st)\<rparr>)"
    by (auto simp: post_rooms_def Map_has_def split: if_splits option.splits)
  then show ?thesis
    using assms(2) unfolding subscribed_map_def
    by (auto simp: map_of_update split: if_splits)
qed

lemma subscribed_map_sweep:
  assumes "subscribed_map st" and "distinct (map fst (rooms st))"
  shows "subscribed_map (sweep cfg now st)"
proof -
  have "map_of (rooms (sweep cfg now st)) rid = Some room \<Longrightarrow> map_of (rooms st) rid = Some room"
    for rid room
    by (simp add: sweep_def Let_def map_of_filter_distinct [OF assms(2)]
        split: option.splits if_splits)
  moreover have "sockets (sweep cfg now st) = sockets st"
    by (simp add: sweep_def Let_def)
  ultimately show ?thesis
    using assms(1) unfolding subscribed_map_def by metis
qed

lemma distinct_sockets_join_room:
  assumes "distinct (map fst (sockets st))"
  shows "distinct (map fst (sockets (fst (join_room cfg now sid roomIdv rolev st))))"
proof (cases "map_of (sockets st) sid")
  case None
  then show ?thesis using assms by (simp add: join_room_def)
next
  case (Some sock)
  show ?thesis
  proof (cases "invalid_room_id roomIdv \<or>
      (\<not> Map_has (the_string roomIdv) (rooms st) \<and> maxRooms cfg \<le> int (length (rooms st)))")
    case True
    then show ?thesis using Some assms by (auto simp: join_room_def)
  next
    case False
    then obtain rid where rid: "roomIdv = JString rid" "rid \<noteq> []" "length rid \<le> 10"
      by (cases roomIdv) auto
    from False rid have cap: "Map_has rid (rooms st) \<or> int (length (rooms st)) < maxRooms cfg"
      by auto
    show ?thesis
      unfolding rid(1) join_room_admitted [OF Some rid(2,3) cap]
      using assms
      by (auto simp: sockets_handleHostJoin sockets_handleListenerJoin joined_state_simps
          distinct_update)
  qed
qed

lemma distinct_sockets_relay:
  assumes "distinct (map fst (sockets st))"
  shows "distinct (map fst (sockets (fst (relay now sid kind to payload st))))"
proof (cases "map_of (sockets st) sid")
  case None
  then show ?thesis using assms by (simp add: relay_def)
next
  case (Some sock)
  show ?thesis
  proof (cases "fst (rateLimitSignal now sid sock)")
    case True
    then have "rateLimitSignal now sid sock =
        (True, sock\<lparr>signalRateLimit := AList.update sid now (signalRateLimit sock)\<rparr>)"
      by (auto simp: rateLimitSignal_def Let_def split: if_splits)
    then show ?thesis using Some assms by (simp add: relay_def distinct_update)
  next
    case False
    then have "rateLimitSignal now sid sock = (False, sock)"
      by (auto simp: rateLimitSignal_def Let_def split: if_splits)
    then show ?thesis using Some assms by (simp add: relay_def)
  qed
qed

lemma distinct_sockets_connect:
  "distinct (map fst (sockets st)) \<Longrightarrow> distinct (map fst (sockets (fst (connect cfg sid st))))"
  by (simp add: connect_def distinct_update)

lemma distinct_sockets_disconnect:
  "distinct (map fst (sockets st)) \<Longrightarrow> distinct (map fst (sockets (fst (disconnect sid st))))"
  by (simp add: disconnect_def sockets_handleDisconnect distinct_delete split: option.splits)

lemma step_members_subscribed:
  assumes s: "step cfg now i st = Some (st', out)"
      and inv: "members_subscribed st"
      and fresh: "\<And>c. i = Connect c \<Longrightarrow> fresh_id st c"
  shows "members_subscribed st'"
proof -
  from inv have dr: "distinct (map fst (rooms st))" and ds: "distinct (map fst (sockets st))"
    and sm: "subscribed_map st"
    by (simp_all add: members_subscribed_iff)
  have dr': "distinct (map fst (rooms st'))" using s dr by (rule step_distinct_rooms)
  have "distinct (map fst (sockets st')) \<and> subscribed_map st'"
  proof (cases i)
    case (Connect c)
    with s have "st' = fst (connect cfg c st)" by auto
    then show ?thesis
      using ds sm fresh [OF Connect] by (simp add: distinct_sockets_connect subscribed_map_connect)
  next
    case (JoinRoom c roomIdv rolev)
    with s have "st' = fst (join_room cfg now c roomIdv rolev st)" by auto
    then show ?thesis using ds sm by (simp add: distinct_sockets_join_room subscribed_map_join_room)
  next
    case (Signal c kind to payload)
    with s have "st' = fst (relay now c kind to payload st)" by auto
    then show ?thesis using ds sm by (simp add: distinct_sockets_relay subscribed_map_relay)
  next
    case (MuteStream c)
    with s have "st' = fst (host_control HostMuted c st)" by (auto simp: mute_stream_def)
    then show ?thesis using ds sm by (simp add: fst_host_control)
  next
    case (UnmuteStream c)
    with s have "st' = fst (host_control HostUnmuted c st)" by (auto simp: unmute_stream_def)
    then show ?thesis using ds sm by (simp add: fst_host_control)
  next
    case (Disconnect c)
    with s have "st' = fst (disconnect c st)" by auto
    then show ?thesis using ds sm by (simp add: distinct_sockets_disconnect subscribed_map_disconnect)
  next
    case (PostRooms rnd)
    with s obtain r where p: "post_rooms cfg now rnd st = Some (st', r)"
      by (auto split: option.splits)
    then show ?thesis
      using ds sm sockets_post_rooms [OF p] subscribed_map_post_rooms [OF p] by simp
  next
    case Sweep
    with s have "st' = sweep cfg now st" by simp
    moreover have "sockets (sweep cfg now st) = sockets st" by (simp add: sweep_def Let_def)
    ultimately show ?thesis using ds sm dr by (simp add: subscribed_map_sweep)
  next
    case (JoinRoomNoPayload c)
    from s [unfolded JoinRoomNoPayload] have "st' = st" by (rule step_no_payload(1))
    then show ?thesis using ds sm by simp
  next
    case (SignalNoPayload c kind)
    from s [unfolded SignalNoPayload] have "st' = st" by (rule step_no_payload(2))
    then show ?thesis using ds sm by simp
  qed
  with dr' show ?thesis by (simp add: members_subscribed_iff)
qed

lemma members_subscribed_init: "members_subscribed init_server"
  by (simp add: members_subscribed_def init_server_def)

lemma run_members_subscribed:
  "run cfg es st = Some (st', out) \<Longrightarrow> members_subscribed st \<Longrightarrow> fresh_connects cfg es st
     \<Longrightarrow> members_subscribed st'"
proof (induction es arbitrary: st out)
  case Nil
  then show ?case by simp
next
  case (Cons e es)
  obtain now i where e: "e = (now, i)" by (cases e)
  from Cons.prems(1) obtain st1 out1 out2 where
    s: "step cfg now i st = Some (st1, out1)" and r: "run cfg es st1 = Some (st', out2)"
    by (auto simp: e split: option.splits)
  have "members_subscribed st1"
    using s Cons.prems(2)
  proof (rule step_members_subscribed)
    fix c assume "i = Connect c"
    with Cons.prems(3) show "fresh_id st c" by (simp add: e)
  qed
  moreover have "fresh_connects cfg es st1" using Cons.prems(3) by (simp add: e s)
  ultimately show ?case using Cons.IH [OF r] by simp
qed

text \<open>
  So the invariant holds in every state the server reaches from its initial state, as long
  as no new socket gets an id that a room still records.
\<close>

lemma reachable_members_subscribed:
  "run cfg es init_server = Some (st, out) \<Longrightarrow> fresh_connects cfg es init_server
     \<Longrightarrow> members_subscribed st"
  by (rule run_members_subscribed [OF _ members_subscribed_init])

lemma members_subscribed_st_hosted: "members_subscribed st_hosted"
  by (simp add: members_subscribed_def example_defs new_socket_def)

lemma member_in_channel:
  assumes "members_subscribed st" and "map_of (rooms st) rid = Some room"
      and "Map_has c (sockets st)" and "host room = Some c \<or> c \<in> set (listeners room)"
  shows "\<exists>s. (c, s) \<in> set (sockets st) \<and> in_channel rid (c, s)"
proof -
  from assms(3) obtain s where s: "map_of (sockets st) c = Some s"
    by (auto simp: Map_has_def)
  with assms(1,2,4) have "rid \<in> set (joined s)"
    unfolding members_subscribed_iff subscribed_map_def by metis
  with s show ?thesis by (auto simp: in_channel_def dest: map_of_SomeD)
qed

subsection \<open>Validation of the room id\<close>

lemma invalid_room_id_iff:
  "invalid_room_id v = (\<forall>s. v = JString s \<longrightarrow> s = [] \<or> 10 < length s)"
  by (cases v) auto

lemma handleHostJoin_not_invalid:
  "snd (handleHostJoin sid rid st) \<noteq> [(sid, ErrorEv ''Invalid room ID'')]"
  by (auto simp: handleHostJoin_def emit_def split: option.splits)

lemma handleListenerJoin_not_invalid:
  "snd (handleListenerJoin sid rid st) \<noteq> [(sid, ErrorEv ''Invalid room ID'')]"
  by (auto simp: handleListenerJoin_def emit_def Let_def split: option.splits)

text \<open>
  For a payload with properties the guard decides, and it is the first statement of the
  body. The join of a connected socket answers with the error \<open>Invalid room ID\<close> exactly
  when the property \<open>roomId\<close> is not a non-empty string of at most 10 characters: when it
  is missing (\<open>undefined\<close>, \<open>null\<close> or the empty string, which are falsy), not a string,
  or longer than 10. In that case nothing else happens: the state is unchanged, whatever
  the registry and the role are. Every non-empty string of length at most 10 passes.
\<close>

lemma invalid_room_id_answer:
  assumes "map_of (sockets st) sid = Some sock"
  shows "(snd (join_room cfg now sid roomIdv rolev st) = [(sid, ErrorEv ''Invalid room ID'')])
           = (\<forall>s. roomIdv = JString s \<longrightarrow> s = [] \<or> 10 < length s)
         \<and> ((\<forall>s. roomIdv = JString s \<longrightarrow> s = [] \<or> 10 < length s)
              \<longrightarrow> fst (join_room cfg now sid roomIdv rolev st) = st)"
  using assms handleHostJoin_not_invalid handleListenerJoin_not_invalid
  by (auto simp: join_room_def emit_def Let_def invalid_room_id_iff)

lemma invalid_room_id_answer_examples:
  "map_of (sockets st_connected) ''B'' = Some new_socket
   \<and> join_room cfg0 5 ''B'' (JString ''ABCDEFGHIJK'') (JString ''host'') st_connected
       = (st_connected, [(''B'', ErrorEv ''Invalid room ID'')])
   \<and> join_room cfg0 5 ''B'' (JString []) (JString ''host'') st_connected
       = (st_connected, [(''B'', ErrorEv ''Invalid room ID'')])
   \<and> join_room cfg0 5 ''B'' (JNumber 7) (JString ''host'') st_connected
       = (st_connected, [(''B'', ErrorEv ''Invalid room ID'')])
   \<and> snd (join_room cfg0 5 ''B'' (JString ''ABCDEFGHIJ'') (JString ''host'') st_connected)
       \<noteq> [(''B'', ErrorEv ''Invalid room ID'')]"
proof -
  have live: "map_of (sockets st_connected) ''B'' = Some new_socket"
    by (simp add: st_connected_def)
  note inst = invalid_room_id_answer [OF live, of cfg0 5]
  show ?thesis
    using live inst [of "JString ''ABCDEFGHIJK''" "JString ''host''"]
      inst [of "JString []" "JString ''host''"]
      inst [of "JNumber 7" "JString ''host''"]
      inst [of "JString ''ABCDEFGHIJ''" "JString ''host''"]
    by (simp add: prod_eq_iff)
qed

text \<open>
  Claim C6 fails for a join request without payload. The connected socket B sends
  \<open>join-room\<close> with no payload, or with \<open>null\<close>. Its \<open>roomId\<close> is missing, and yet B is
  not sent \<open>Invalid room ID\<close>: the listener throws a \<open>TypeError\<close> while it binds
  \<open>{ roomId, role }\<close>, before the guard on the room id is reached, and the server has no
  next state. A payload whose property \<open>roomId\<close> is missing is answered by the guard.
\<close>

theorem join_room_without_payload_throws:
  "map_of (sockets st_connected) ''B'' = Some new_socket
   \<and> on_join_room cfg0 5 ''B'' NoPayload st_connected = Inl TypeError
   \<and> on_join_room cfg0 5 ''B'' NullPayload st_connected = Inl TypeError
   \<and> step cfg0 5 (JoinRoomNoPayload ''B'') st_connected = None
   \<and> on_join_room cfg0 5 ''B'' (Properties (JUndefined, JString ''host'')) st_connected
       = Inr (st_connected, [(''B'', ErrorEv ''Invalid room ID'')])"
  by (simp add: on_join_room_def join_room_def emit_def st_connected_def)

theorem join_room_without_payload_throws_witness:
  "on_join_room cfg0 5 ''B'' NoPayload st_connected
     \<noteq> Inr (st_connected, [(''B'', ErrorEv ''Invalid room ID'')])
   \<and> run cfg0 [(5, JoinRoomNoPayload ''B'')] st_connected = None"
  using join_room_without_payload_throws by simp

subsection \<open>One host for each room\<close>

lemma handleHostJoin_keeps_host:
  assumes "map_of (rooms st) rid = Some room" and "host room = Some h" and "h \<noteq> []"
  shows "\<exists>room'. map_of (rooms (fst (handleHostJoin sid rid' st))) rid = Some room' \<and> host room' = Some h"
  using assms by (auto simp: handleHostJoin_def map_of_update split: option.splits)

lemma handleListenerJoin_keeps_host:
  assumes "map_of (rooms st) rid = Some room" and "host room = Some h"
  shows "\<exists>room'. map_of (rooms (fst (handleListenerJoin sid rid' st))) rid = Some room' \<and> host room' = Some h"
  using assms by (auto simp: handleListenerJoin_def Let_def map_of_update split: option.splits)

lemma join_room_keeps_host:
  assumes "map_of (rooms st) rid = Some room" and "host room = Some h" and "h \<noteq> []"
  shows "\<exists>room'. map_of (rooms (fst (join_room cfg now sid roomIdv rolev st))) rid = Some room'
           \<and> host room' = Some h"
proof (cases "map_of (sockets st) sid")
  case None
  then show ?thesis using assms by (simp add: join_room_def)
next
  case (Some sock)
  show ?thesis
  proof (cases "invalid_room_id roomIdv \<or>
      (\<not> Map_has (the_string roomIdv) (rooms st) \<and> maxRooms cfg \<le> int (length (rooms st)))")
    case True
    then show ?thesis using assms Some by (auto simp: join_room_def)
  next
    case False
    define st2 where "st2 = (if \<not> Map_has (the_string roomIdv) (rooms st)
          then st\<lparr>rooms := AList.update (the_string roomIdv)
                     \<lparr>host = None, listeners = [], createdAt = now\<rparr> (rooms st)\<rparr>
          else st)\<lparr>sockets := AList.update sid (sock\<lparr>joined := Set_add (the_string roomIdv) (joined sock),
                                 roomId := Some (the_string roomIdv), role := rolev\<rparr>) (sockets st)\<rparr>"
    have r2: "map_of (rooms st2) rid = Some room"
      using assms by (auto simp: st2_def map_of_update Map_has_def)
    have eq: "join_room cfg now sid roomIdv rolev st =
       (if rolev = JString ''host'' then handleHostJoin sid (the_string roomIdv) st2
        else if rolev = JString ''listener'' then handleListenerJoin sid (the_string roomIdv) st2
        else (st2, []))"
      using False Some by (auto simp: join_room_def st2_def Let_def)
    show ?thesis
      unfolding eq
      using handleHostJoin_keeps_host [OF r2 assms(2,3)] handleListenerJoin_keeps_host [OF r2 assms(2)] r2 assms(2)
      by auto
  qed
qed

lemma run_joins_keep_host:
  assumes "\<forall>e \<in> set es. is_join (snd e)"
      and "map_of (rooms st) rid = Some room" and "host room = Some h" and "h \<noteq> []" 
  shows "\<exists>st' out room'. run cfg es st = Some (st', out) \<and>
           map_of (rooms st') rid = Some room' \<and> host room' = Some h"
  using assms
proof (induction es arbitrary: st room)
  case Nil
  then show ?case by simp
next
  case (Cons e es)
  obtain now i where e: "e = (now, i)" by (cases e)
  with Cons.prems obtain sid roomIdv rolev where i: "i = JoinRoom sid roomIdv rolev"
    by (cases i) auto
  obtain st1 out1 where j: "join_room cfg now sid roomIdv rolev st = (st1, out1)"
    by (cases "join_room cfg now sid roomIdv rolev st")
  from join_room_keeps_host [OF Cons.prems(2,3,4), of cfg now sid roomIdv rolev] j
  obtain room1 where r1: "map_of (rooms st1) rid = Some room1" "host room1 = Some h" by auto
  from Cons.IH [OF _ r1 Cons.prems(4)] Cons.prems(1)
  obtain st' out room' where "run cfg es st1 = Some (st', out)"
    "map_of (rooms st') rid = Some room'" "host room' = Some h" by auto
  then show ?case by (simp add: e i j)
qed

text \<open>
  Claim C1. A room has one \<open>host\<close> field, which holds \<open>null\<close> or one socket id, so at
  most one connection is recorded as its host. Once the field holds the id \<open>h\<close> of a
  socket (a non-empty string), every sequence of \<open>join-room\<close> requests, by any sockets with
  any properties in their payloads, runs to its end and leaves the room in the registry
  with host \<open>h\<close>. A
  join of a connected socket into that room with role \<open>host\<close> delivers exactly one event,
  the error \<open>Room already has a host\<close> to the joining socket, and leaves the registry as
  it was.
\<close>

theorem first_host_wins:
  assumes "map_of (rooms st) rid = Some room" and "host room = Some h" and "h \<noteq> []"
      and "\<forall>e \<in> set es. is_join (snd e)"
  shows "(\<exists>st' out room'. run cfg es st = Some (st', out) \<and>
            map_of (rooms st') rid = Some room' \<and> host room' = Some h)
       \<and> (map_of (sockets st) sid = Some sock \<and> rid \<noteq> [] \<and> length rid \<le> 10 \<longrightarrow>
            snd (join_room cfg now sid (JString rid) (JString ''host'') st)
              = [(sid, ErrorEv ''Room already has a host'')]
          \<and> rooms (fst (join_room cfg now sid (JString rid) (JString ''host'') st)) = rooms st)"
proof
  show "\<exists>st' out room'. run cfg es st = Some (st', out) \<and>
            map_of (rooms st') rid = Some room' \<and> host room' = Some h"
    using run_joins_keep_host [OF assms(4) assms(1,2,3)] .
  show "map_of (sockets st) sid = Some sock \<and> rid \<noteq> [] \<and> length rid \<le> 10 \<longrightarrow>
            snd (join_room cfg now sid (JString rid) (JString ''host'') st)
              = [(sid, ErrorEv ''Room already has a host'')]
          \<and> rooms (fst (join_room cfg now sid (JString rid) (JString ''host'') st)) = rooms st"
    using assms(1,2,3) by (auto simp: join_room_def handleHostJoin_def Map_has_def emit_def Let_def)
qed

theorem first_host_wins_witness:
  "(\<exists>st' out room'.
      run cfg0 [(1003, JoinRoom ''B'' (JString ''R1'') (JString ''host'')),
                (1004, JoinRoom ''L1'' (JString ''R1'') (JString ''host''))] st_hosted
        = Some (st', out)
      \<and> map_of (rooms st') ''R1'' = Some room' \<and> host room' = Some ''H'')
   \<and> snd (join_room cfg0 1003 ''B'' (JString ''R1'') (JString ''host'') st_hosted)
       = [(''B'', ErrorEv ''Room already has a host'')]
   \<and> rooms (fst (join_room cfg0 1003 ''B'' (JString ''R1'') (JString ''host'') st_hosted))
       = rooms st_hosted"
proof -
  have room: "map_of (rooms st_hosted) ''R1''
      = Some \<lparr>host = Some ''H'', listeners = [''L1'', ''L2''], createdAt = 1000\<rparr>"
    by (simp add: example_defs)
  have joins: "\<forall>e \<in> set [(1003::int, JoinRoom ''B'' (JString ''R1'') (JString ''host'')),
                (1004, JoinRoom ''L1'' (JString ''R1'') (JString ''host''))]. is_join (snd e)"
    by simp
  have live: "map_of (sockets st_hosted) ''B'' = Some new_socket"
    by (simp add: example_defs)
  show ?thesis
    using first_host_wins [OF room _ _ joins, of "''H''" cfg0 "''B''" new_socket 1003] live
    by simp
qed

subsection \<open>Listener count\<close>

text \<open>
  Claim C2 fails for the joining listener. In the room R1 with host H and listeners L1 and
  L2, the socket B joins as a listener. B is added to the listeners of the room, and the
  new count 3 is sent to H, L1 and L2 and not to B: the count is broadcast with
  \<open>socket.to(roomId)\<close>, which leaves the sender out. (The first variant of the server
  comments this broadcast \<open>Send room stats to all listeners\<close>.)
\<close>

theorem listener_count_not_sent_to_joiner:
  "join_room cfg0 1003 ''B'' (JString ''R1'') (JString ''listener'') st_hosted
     = (st_hosted
          \<lparr>rooms := [(''R1'', \<lparr>host = Some ''H'', listeners = [''L1'', ''L2'', ''B''],
                               createdAt = 1000\<rparr>)],
           sockets := AList.update ''B''
              \<lparr>roomId = Some ''R1'', role = JString ''listener'', joined = [''R1''],
               signalRateLimit = []\<rparr> (sockets st_hosted)\<rparr>,
        [(''B'', ListenerJoinedRoom ''R1''), (''H'', ListenerJoined ''B''),
         (''B'', HostConnected), (''H'', ListenerCountUpdated 3),
         (''L1'', ListenerCountUpdated 3), (''L2'', ListenerCountUpdated 3)])
   \<and> (''B'', ListenerCountUpdated 3)
       \<notin> set (snd (join_room cfg0 1003 ''B'' (JString ''R1'') (JString ''listener'') st_hosted))"
  by (simp add: handler_defs example_defs)

theorem listener_count_not_sent_to_joiner_witness:
  "(''H'', ListenerCountUpdated 3)
     \<in> set (snd (join_room cfg0 1003 ''B'' (JString ''R1'') (JString ''listener'') st_hosted))
   \<and> (''B'', ListenerCountUpdated 3)
     \<notin> set (snd (join_room cfg0 1003 ''B'' (JString ''R1'') (JString ''listener'') st_hosted))"
  using listener_count_not_sent_to_joiner by simp

text \<open>
  The recipients of the count in general. A listener join of a connected socket with a
  valid room id that passes the capacity check adds the socket to the listeners of the
  room, and the \<open>listener-count-updated\<close> events it delivers are exactly these: one, with
  the new size of the listener set, to every other connected socket that is in the
  socket.io room of the room id. In a state that satisfies \<open>members_subscribed\<close>, the host
  of the room and its other listeners, as far as they are connected, are among them.
\<close>

lemma listener_join_count_broadcast:
  assumes live: "map_of (sockets st) sid = Some sock"
      and rid: "rid \<noteq> []" "length rid \<le> 10"
      and cap: "Map_has rid (rooms st) \<or> int (length (rooms st)) < maxRooms cfg"
  shows "\<exists>room'. map_of (rooms (fst (join_room cfg now sid (JString rid) (JString ''listener'') st))) rid
                   = Some room'
          \<and> sid \<in> set (listeners room')
          \<and> (\<forall>c n. (c, ListenerCountUpdated n)
                      \<in> set (snd (join_room cfg now sid (JString rid) (JString ''listener'') st))
                \<longleftrightarrow> n = length (listeners room') \<and> c \<noteq> sid \<and>
                    (\<exists>s. (c, s) \<in> set (sockets st) \<and> in_channel rid (c, s)))
          \<and> (members_subscribed st \<longrightarrow>
               (\<forall>c. c \<noteq> sid \<and> Map_has c (sockets st) \<and>
                    (host room' = Some c \<or> c \<in> set (listeners room')) \<longrightarrow>
                  (c, ListenerCountUpdated (length (listeners room')))
                    \<in> set (snd (join_room cfg now sid (JString rid) (JString ''listener'') st))))"
proof -
  let ?js = "joined_state now sid sock rid (JString ''listener'') st"
  obtain room0 where r0: "map_of (rooms ?js) rid = Some room0"
    by (cases "map_of (rooms st) rid") (auto simp: joined_state_simps)
  let ?room' = "room0\<lparr>listeners := Set_add sid (listeners room0)\<rparr>"
  have j: "join_room cfg now sid (JString rid) (JString ''listener'') st
      = handleListenerJoin sid rid ?js"
    by (simp add: join_room_admitted [OF live rid cap])
  have r': "map_of (rooms (fst (handleListenerJoin sid rid ?js))) rid = Some ?room'"
    using r0 by (simp add: handleListenerJoin_def Let_def map_of_update)
  have mem: "(c, s) \<in> set (sockets ?js) \<longleftrightarrow> (c, s) \<in> set (sockets st)" if "c \<noteq> sid" for c s
    using that by (simp add: joined_state_simps mem_update_other)
  have emit: "\<And>c ev. (c, ev) \<in> set (to_emit ?js sid ch ev') \<longleftrightarrow>
     ev = ev' \<and> c \<noteq> sid \<and> (\<exists>s. (c, s) \<in> set (sockets st) \<and> in_channel ch (c, s))" for ch ev'
    using mem by (auto simp: mem_to_emit)
  have count: "(c, ListenerCountUpdated n) \<in> set (snd (handleListenerJoin sid rid ?js))
                \<longleftrightarrow> n = length (listeners ?room') \<and> c \<noteq> sid \<and>
                    (\<exists>s. (c, s) \<in> set (sockets st) \<and> in_channel rid (c, s))" for c n
    using r0 emit
    by (auto simp: handleListenerJoin_def Let_def emit_def split: option.splits)
  have members: "(c, ListenerCountUpdated (length (listeners ?room')))
                    \<in> set (snd (handleListenerJoin sid rid ?js))"
    if inv: "members_subscribed st" and c: "c \<noteq> sid" "Map_has c (sockets st)"
      "host ?room' = Some c \<or> c \<in> set (listeners ?room')" for c
  proof (cases "map_of (rooms st) rid")
    case None
    with r0 have "room0 = \<lparr>host = None, listeners = [], createdAt = now\<rparr>"
      by (simp add: joined_state_simps)
    with c show ?thesis by (simp add: Set_add_def)
  next
    case (Some room)
    with r0 have "room0 = room" by (simp add: joined_state_simps)
    with c have "host room = Some c \<or> c \<in> set (listeners room)"
      by (auto simp: Set_add_def split: if_splits)
    from member_in_channel [OF inv Some c(2) this] c(1) show ?thesis by (simp add: count)
  qed
  have "sid \<in> set (listeners ?room')" by (simp add: Set_add_def)
  with r' count members show ?thesis unfolding j by blast
qed

lemma listener_join_count_broadcast_examples:
  "\<exists>room'. map_of (rooms (fst (join_room cfg0 1003 ''B'' (JString ''R1'') (JString ''listener'')
                 st_hosted))) ''R1'' = Some room'
          \<and> room' = \<lparr>host = Some ''H'', listeners = [''L1'', ''L2'', ''B''], createdAt = 1000\<rparr>
          \<and> (''H'', ListenerCountUpdated 3)
               \<in> set (snd (join_room cfg0 1003 ''B'' (JString ''R1'') (JString ''listener'') st_hosted))
          \<and> (''L1'', ListenerCountUpdated 3)
               \<in> set (snd (join_room cfg0 1003 ''B'' (JString ''R1'') (JString ''listener'') st_hosted))
          \<and> (''B'', ListenerCountUpdated 3)
               \<notin> set (snd (join_room cfg0 1003 ''B'' (JString ''R1'') (JString ''listener'') st_hosted))"
proof -
  have live: "map_of (sockets st_hosted) ''B'' = Some new_socket"
    by (simp add: example_defs)
  have cap: "Map_has ''R1'' (rooms st_hosted) \<or> int (length (rooms st_hosted)) < maxRooms cfg0"
    by (simp add: example_defs Map_has_def)
  have has: "Map_has ''H'' (sockets st_hosted)" "Map_has ''L1'' (sockets st_hosted)"
    by (simp_all add: example_defs Map_has_def)
  have r: "map_of (rooms (fst (join_room cfg0 1003 ''B'' (JString ''R1'') (JString ''listener'')
                 st_hosted))) ''R1''
      = Some \<lparr>host = Some ''H'', listeners = [''L1'', ''L2'', ''B''], createdAt = 1000\<rparr>"
    by (simp add: handler_defs example_defs)
  from listener_join_count_broadcast [OF live _ _ cap, of 1003]
  obtain room' where T:
    "map_of (rooms (fst (join_room cfg0 1003 ''B'' (JString ''R1'') (JString ''listener'')
                 st_hosted))) ''R1'' = Some room'"
    "\<And>c n. (c, ListenerCountUpdated n)
         \<in> set (snd (join_room cfg0 1003 ''B'' (JString ''R1'') (JString ''listener'') st_hosted))
       \<longleftrightarrow> n = length (listeners room') \<and> c \<noteq> ''B'' \<and>
           (\<exists>s. (c, s) \<in> set (sockets st_hosted) \<and> in_channel ''R1'' (c, s))"
    "\<And>c. members_subscribed st_hosted \<Longrightarrow> c \<noteq> ''B'' \<Longrightarrow> Map_has c (sockets st_hosted) \<Longrightarrow>
         host room' = Some c \<or> c \<in> set (listeners room') \<Longrightarrow>
         (c, ListenerCountUpdated (length (listeners room')))
           \<in> set (snd (join_room cfg0 1003 ''B'' (JString ''R1'') (JString ''listener'') st_hosted))"
    by auto
  from T(1) r have room': "room' = \<lparr>host = Some ''H'', listeners = [''L1'', ''L2'', ''B''],
      createdAt = 1000\<rparr>"
    by simp
  have len: "length (listeners room') = 3" by (simp add: room')
  have "(''H'', ListenerCountUpdated 3)
      \<in> set (snd (join_room cfg0 1003 ''B'' (JString ''R1'') (JString ''listener'') st_hosted))"
    "(''L1'', ListenerCountUpdated 3)
      \<in> set (snd (join_room cfg0 1003 ''B'' (JString ''R1'') (JString ''listener'') st_hosted))"
    using T(3) [OF members_subscribed_st_hosted _ has(1)]
      T(3) [OF members_subscribed_st_hosted _ has(2)]
    unfolding len by (simp_all add: room')
  moreover have "(''B'', ListenerCountUpdated 3)
      \<notin> set (snd (join_room cfg0 1003 ''B'' (JString ''R1'') (JString ''listener'') st_hosted))"
    by (simp add: T(2))
  ultimately show ?thesis using T(1) room' by simp
qed

subsection \<open>Failed joins\<close>

text \<open>
  Claim C3 fails for the rejected host. In the room R1 with host H, the fresh socket B asks
  to join R1 as host. B is sent \<open>Room already has a host\<close>, and yet its session now
  records the room id R1 and the role \<open>host\<close>, and B is in the socket.io room R1: the
  handler writes these before it looks at the role. The two other failures return before.
\<close>

theorem rejected_host_session_recorded:
  "map_of (sockets st_hosted) ''B'' = Some new_socket
   \<and> join_room cfg0 1003 ''B'' (JString ''R1'') (JString ''host'') st_hosted
       = (st_rejected, [(''B'', ErrorEv ''Room already has a host'')])
   \<and> map_of (sockets st_rejected) ''B''
       = Some \<lparr>roomId = Some ''R1'', role = JString ''host'', joined = [''R1''],
               signalRateLimit = []\<rparr>"
  by (simp add: handler_defs example_defs)

theorem rejected_host_session_recorded_witness:
  "roomId new_socket = None \<and> role new_socket = JUndefined \<and> joined new_socket = []
   \<and> (\<exists>sock'. map_of (sockets (fst (join_room cfg0 1003 ''B'' (JString ''R1'') (JString ''host'')
                   st_hosted))) ''B'' = Some sock'
          \<and> roomId sock' = Some ''R1'' \<and> role sock' = JString ''host'' \<and> ''R1'' \<in> set (joined sock'))"
  using rejected_host_session_recorded by (simp add: new_socket_def)

text \<open>
  Claim C5. When the registry holds \<open>maxRooms\<close> rooms (or more), \<open>POST /api/rooms\<close>
  returns status 429 without drawing a room id, and a join of a connected socket with a
  valid id of a room that does not exist is answered with \<open>Server at capacity\<close>, whatever
  its role. Both leave the whole state, and so the number of rooms, unchanged.
\<close>

theorem capacity_exceeded:
  assumes full: "maxRooms cfg \<le> int (length (rooms st))"
  shows "post_rooms cfg now rnd st = Some (st, TooManyRequests ''Maximum number of rooms reached'')
       \<and> (map_of (sockets st) sid = Some sock \<and> rid \<noteq> [] \<and> length rid \<le> 10 \<and>
            map_of (rooms st) rid = None
          \<longrightarrow> join_room cfg now sid (JString rid) rolev st
                = (st, [(sid, ErrorEv ''Server at capacity'')]))"
  using full by (auto simp: post_rooms_def join_room_def Map_has_def emit_def)

theorem capacity_exceeded_witness:
  "int (length (rooms st_full)) = maxRooms cfg0
   \<and> post_rooms cfg0 5000 (\<lambda>n. ''ABC123'') st_full
       = Some (st_full, TooManyRequests ''Maximum number of rooms reached'')
   \<and> join_room cfg0 5000 ''B'' (JString ''R3'') (JString ''host'') st_full
       = (st_full, [(''B'', ErrorEv ''Server at capacity'')])
   \<and> join_room cfg0 5000 ''B'' (JString ''R3'') (JString ''listener'') st_full
       = (st_full, [(''B'', ErrorEv ''Server at capacity'')])"
proof -
  have full: "maxRooms cfg0 \<le> int (length (rooms st_full))"
    by (simp add: example_defs)
  have pre: "map_of (sockets st_full) ''B'' = Some new_socket \<and> ''R3'' \<noteq> [] \<and>
      length ''R3'' \<le> 10 \<and> map_of (rooms st_full) ''R3'' = None"
    by (simp add: example_defs)
  show ?thesis
    using capacity_exceeded [OF full, of 5000 "\<lambda>n. ''ABC123''" "''B''" new_socket "''R3''" "JString ''host''"]
      capacity_exceeded [OF full, of 5000 "\<lambda>n. ''ABC123''" "''B''" new_socket "''R3''" "JString ''listener''"]
      pre
    by (simp add: example_defs)
qed

subsection \<open>Disconnect of a host\<close>




text \<open>
  In general, a socket whose role is \<open>listener\<close> takes the listener branch, which leaves
  the host field of a hosted room as it is.
\<close>

lemma listener_role_disconnect_keeps_host:
  assumes "map_of (sockets st) sid = Some sock"
      and "role sock = JString ''listener''" and "roomId sock = Some rid" and "rid \<noteq> []"
      and "map_of (rooms st) rid = Some room" and "host room = Some h" and "h \<noteq> []"
  shows "map_of (rooms (fst (disconnect sid st))) rid
           = Some (room\<lparr>listeners := Set_delete sid (listeners room)\<rparr>)"
  using assms by (simp add: disconnect_def handleDisconnect_def Let_def map_of_update)

text \<open>
  Claim C9. A socket whose recorded role is \<open>host\<close> and whose recorded room has another
  host, or none, disconnects: the registry is unchanged (the host and the listeners of
  every room, and which rooms exist) and no event is delivered.
\<close>

theorem disconnect_non_host:
  assumes "map_of (sockets st) sid = Some sock"
      and "role sock = JString ''host''"
      and "roomId sock = Some rid"
      and "map_of (rooms st) rid = Some room"
      and "host room \<noteq> Some sid"
  shows "rooms (fst (disconnect sid st)) = rooms st \<and> snd (disconnect sid st) = []"
  using assms by (auto simp: disconnect_def handleDisconnect_def)

theorem disconnect_non_host_witness:
  "map_of (rooms st_rejected) ''R1''
     = Some \<lparr>host = Some ''H'', listeners = [''L1'', ''L2''], createdAt = 1000\<rparr>
   \<and> rooms (fst (disconnect ''B'' st_rejected)) = rooms st_rejected
   \<and> snd (disconnect ''B'' st_rejected) = []"
proof -
  have live: "map_of (sockets st_rejected) ''B''
      = Some \<lparr>roomId = Some ''R1'', role = JString ''host'', joined = [''R1''],
              signalRateLimit = []\<rparr>"
    by (simp add: example_defs)
  have room: "map_of (rooms st_rejected) ''R1''
      = Some \<lparr>host = Some ''H'', listeners = [''L1'', ''L2''], createdAt = 1000\<rparr>"
    by (simp add: example_defs)
  show ?thesis
    using disconnect_non_host [OF live _ _ room] room by simp
qed

subsection \<open>The rate limit of the relay\<close>

lemma last_signal_cong:
  "map_option signalRateLimit (map_of (sockets st') sid) = map_option signalRateLimit (map_of (sockets st) sid)
   \<Longrightarrow> last_signal st' sid = last_signal st sid"
  by (auto simp: last_signal_def split: option.splits)

lemma limit_join_room:
  "map_option signalRateLimit (map_of (sockets (fst (join_room cfg now c roomIdv rolev st))) sid)
     = map_option signalRateLimit (map_of (sockets st) sid)"
proof (cases "map_of (sockets st) c")
  case None
  then show ?thesis by (simp add: join_room_def)
next
  case (Some sock)
  show ?thesis
  proof (cases "invalid_room_id roomIdv \<or>
      (\<not> Map_has (the_string roomIdv) (rooms st) \<and> maxRooms cfg \<le> int (length (rooms st)))")
    case True
    then show ?thesis using Some by (auto simp: join_room_def)
  next
    case False
    then obtain rid where rid: "roomIdv = JString rid" "rid \<noteq> []" "length rid \<le> 10"
      by (cases roomIdv) auto
    from False rid have cap: "Map_has rid (rooms st) \<or> int (length (rooms st)) < maxRooms cfg"
      by auto
    show ?thesis
      unfolding rid(1) join_room_admitted [OF Some rid(2,3) cap]
      using Some
      by (simp add: sockets_handleHostJoin sockets_handleListenerJoin joined_state_simps map_of_update)
  qed
qed

lemma last_signal_join_room:
  "last_signal (fst (join_room cfg now c roomIdv rolev st)) sid = last_signal st sid"
  by (rule last_signal_cong) (rule limit_join_room)

lemma last_signal_connect: "last_signal (fst (connect cfg c st)) sid = last_signal st sid"
proof (cases "Map_has c (sockets st) \<or> maxConnections cfg < connectionCount st + 1")
  case True
  then show ?thesis by (auto simp: connect_def)
next
  case False
  then have "fst (connect cfg c st) = st\<lparr>sockets := AList.update c new_socket (sockets st),
               connectionCount := connectionCount st + 1\<rparr>"
    by (auto simp: connect_def)
  moreover have "map_of (sockets st) c = None" using False by (simp add: Map_has_def)
  ultimately show ?thesis
    by (simp add: last_signal_def map_of_update new_socket_def)
qed

lemma last_signal_relay:
  "last_signal (fst (relay now c kind to payload st)) sid =
     (if c = sid \<and> forwards now sid st then now else last_signal st sid)"
proof (cases "map_of (sockets st) c")
  case None
  then show ?thesis by (auto simp: relay_def forwards_def)
next
  case (Some sock)
  show ?thesis
  proof (cases "fst (rateLimitSignal now c sock)")
    case True
    then have "rateLimitSignal now c sock =
        (True, sock\<lparr>signalRateLimit := AList.update c now (signalRateLimit sock)\<rparr>)"
      by (auto simp: rateLimitSignal_def Let_def split: if_splits)
    then show ?thesis using Some True
      by (auto simp: relay_def forwards_def last_signal_def map_of_update)
  next
    case False
    then have "rateLimitSignal now c sock = (False, sock)"
      by (auto simp: rateLimitSignal_def Let_def split: if_splits)
    then show ?thesis using Some False
      by (auto simp: relay_def forwards_def)
  qed
qed

lemma last_signal_disconnect:
  assumes "c \<noteq> sid"
  shows "last_signal (fst (disconnect c st)) sid = last_signal st sid"
proof (cases "map_of (sockets st) c")
  case None
  then show ?thesis by (simp add: disconnect_def)
next
  case (Some sock)
  then have "sockets (fst (disconnect c st)) = AList.delete c (sockets st)"
    by (simp add: disconnect_def sockets_handleDisconnect)
  then show ?thesis using assms by (simp add: last_signal_def map_of_delete)
qed

lemma step_last_signal:
  assumes "i \<noteq> Disconnect sid" and "step cfg now i st = Some (st', out)"
  shows "last_signal st' sid =
           (if is_signal_of sid i \<and> forwards now sid st then now else last_signal st sid)"
proof (cases i)
  case (Connect c)
  with assms(2) have "st' = fst (connect cfg c st)" by auto
  then show ?thesis using Connect by (simp add: last_signal_connect)
next
  case (JoinRoom c roomIdv rolev)
  with assms(2) have "st' = fst (join_room cfg now c roomIdv rolev st)" by auto
  then show ?thesis using JoinRoom by (simp add: last_signal_join_room)
next
  case (Signal c kind to payload)
  with assms(2) have "st' = fst (relay now c kind to payload st)" by auto
  then show ?thesis using Signal by (simp add: last_signal_relay)
next
  case (MuteStream c)
  with assms(2) have "st' = fst (host_control HostMuted c st)" by (auto simp: mute_stream_def)
  then show ?thesis using MuteStream by (simp add: fst_host_control)
next
  case (UnmuteStream c)
  with assms(2) have "st' = fst (host_control HostUnmuted c st)" by (auto simp: unmute_stream_def)
  then show ?thesis using UnmuteStream by (simp add: fst_host_control)
next
  case (Disconnect c)
  with assms have "c \<noteq> sid" "st' = fst (disconnect c st)" by auto
  then show ?thesis using Disconnect by (simp add: last_signal_disconnect)
next
  case (PostRooms rnd)
  with assms(2) obtain r where "post_rooms cfg now rnd st = Some (st', r)"
    by (auto split: option.splits)
  then have "sockets st' = sockets st" by (rule sockets_post_rooms)
  then show ?thesis using PostRooms by (simp add: last_signal_def)
next
  case Sweep
  with assms(2) have "st' = sweep cfg now st" by simp
  then show ?thesis using Sweep by (simp add: sweep_def last_signal_def Let_def)
next
  case (JoinRoomNoPayload c)
  from assms(2) [unfolded JoinRoomNoPayload] have "st' = st" by (rule step_no_payload(1))
  then show ?thesis using JoinRoomNoPayload by simp
next
  case (SignalNoPayload c kind)
  from assms(2) [unfolded SignalNoPayload] have "st' = st" by (rule step_no_payload(2))
  then show ?thesis using SignalNoPayload by simp
qed

lemma forwards_after_window: "forwards now sid st \<Longrightarrow> last_signal st sid + 50 \<le> now"
  by (auto simp: forwards_def last_signal_def rateLimitSignal_def Let_def split: option.splits if_splits)

lemma relay_dropped: "\<not> forwards now sid st \<Longrightarrow> relay now sid kind to payload st = (st, [])"
  by (auto simp: relay_def forwards_def split: option.splits bool.splits prod.splits)

lemma relay_forwarded:
  "forwards now sid st \<Longrightarrow>
     snd (relay now sid kind to payload st) = to_emit st sid to (signal_event kind sid payload)"
  by (auto simp: relay_def forwards_def split: option.splits bool.splits prod.splits)

lemma forwarded_times_spaced:
  assumes "\<forall>e \<in> set es. snd e \<noteq> Disconnect sid"
  shows "(\<forall>t \<in> set (forwarded_times cfg sid es st). last_signal st sid + 50 \<le> t) \<and>
         sorted_wrt (\<lambda>a b. a + 50 \<le> b) (forwarded_times cfg sid es st)"
  using assms
proof (induction es arbitrary: st)
  case Nil
  then show ?case by simp
next
  case (Cons e es)
  obtain now i where e: "e = (now, i)" by (cases e)
  show ?case
  proof (cases "step cfg now i st")
    case None
    then show ?thesis by (simp add: e)
  next
    case (Some r)
    obtain st' out where r: "r = (st', out)" by (cases r)
    have nd: "i \<noteq> Disconnect sid" using Cons.prems e by auto
    note L = step_last_signal [OF nd Some [unfolded r]]
    have IH: "(\<forall>t \<in> set (forwarded_times cfg sid es st'). last_signal st' sid + 50 \<le> t) \<and>
         sorted_wrt (\<lambda>a b. a + 50 \<le> b) (forwarded_times cfg sid es st')"
      using Cons.IH Cons.prems by simp
    show ?thesis
    proof (cases "is_signal_of sid i \<and> forwards now sid st")
      case True
      then have "last_signal st sid + 50 \<le> now" by (simp add: forwards_after_window)
      moreover have "last_signal st' sid = now" using L True by simp
      ultimately show ?thesis using IH True by (auto simp: e Some r)
    next
      case False
      then have "last_signal st' sid = last_signal st sid" using L by auto
      then show ?thesis using IH False by (auto simp: e Some r)
    qed
  qed
qed

lemma last_forwarded_time:
  assumes "\<forall>e \<in> set es. snd e \<noteq> Disconnect sid"
      and "run cfg es st = Some (st', out)"
  shows "last_signal st' sid =
           (if forwarded_times cfg sid es st = [] then last_signal st sid
            else last (forwarded_times cfg sid es st))"
  using assms
proof (induction es arbitrary: st out)
  case Nil
  then show ?case by simp
next
  case (Cons e es)
  obtain now i where e: "e = (now, i)" by (cases e)
  from Cons.prems(2) obtain st1 out1 out2 where
    s: "step cfg now i st = Some (st1, out1)" and r: "run cfg es st1 = Some (st', out2)"
    by (auto simp: e split: option.splits)
  have nd: "i \<noteq> Disconnect sid" using Cons.prems e by auto
  note L = step_last_signal [OF nd s]
  have IH: "last_signal st' sid =
           (if forwarded_times cfg sid es st1 = [] then last_signal st1 sid
            else last (forwarded_times cfg sid es st1))"
    using Cons.IH [OF _ r] Cons.prems(1) by simp
  show ?case using IH L by (auto simp: e s)
qed

lemma window_at_most_one:
  "sorted_wrt (\<lambda>a b. a + 50 \<le> b) ts \<Longrightarrow>
     length (filter (\<lambda>t. w \<le> t \<and> t < w + 50) ts) \<le> 1" for w :: int
proof (induction ts)
  case Nil
  then show ?case by simp
next
  case (Cons x xs)
  show ?case
  proof (cases "w \<le> x \<and> x < w + 50")
    case True
    with Cons.prems have "\<forall>y \<in> set xs. \<not> (w \<le> y \<and> y < w + 50)" by auto
    then have "filter (\<lambda>t. w \<le> t \<and> t < w + 50) xs = []" by (simp add: filter_empty_conv)
    with True show ?thesis by simp
  next
    case False
    with Cons show ?thesis by auto
  qed
qed

text \<open>
  Claim C7. Along every run in which the socket \<open>sid\<close> does not disconnect, with
  arbitrary inputs of other sockets in between and arbitrary clock readings, any two
  forwarded signaling messages of \<open>sid\<close> are at least 50 ms apart, and every window of
  50 ms holds at most one of them. A message of \<open>sid\<close>
  whose handler runs less than 50 ms after the last forwarded one is dropped: nothing is
  delivered to anyone and the state does not change, so nothing is queued for later and
  the sender hears nothing. A message is either forwarded to the sockets of its target
  or dropped in this way.
\<close>

theorem signal_rate_limit:
  assumes "\<forall>e \<in> set es. snd e \<noteq> Disconnect sid"
  shows "(\<forall>i j. i < j \<and> j < length (forwarded_times cfg sid es st) \<longrightarrow>
            forwarded_times cfg sid es st ! i + 50 \<le> forwarded_times cfg sid es st ! j)
       \<and> (\<forall>w. length (filter (\<lambda>t. w \<le> t \<and> t < w + 50) (forwarded_times cfg sid es st)) \<le> 1)
       \<and> (run cfg es st = Some (st', out) \<and> forwarded_times cfg sid es st \<noteq> [] \<and>
          now - last (forwarded_times cfg sid es st) < 50 \<longrightarrow>
            relay now sid kind to payload st' = (st', []))
       \<and> (forwards now sid st \<longrightarrow>
            snd (relay now sid kind to payload st) = to_emit st sid to (signal_event kind sid payload))
       \<and> (\<not> forwards now sid st \<longrightarrow> relay now sid kind to payload st = (st, []))"
proof (intro conjI)
  show "\<forall>i j. i < j \<and> j < length (forwarded_times cfg sid es st) \<longrightarrow>
            forwarded_times cfg sid es st ! i + 50 \<le> forwarded_times cfg sid es st ! j"
    using forwarded_times_spaced [OF assms, of cfg st] by (simp add: sorted_wrt_iff_nth_less)
  show "\<forall>w. length (filter (\<lambda>t. w \<le> t \<and> t < w + 50) (forwarded_times cfg sid es st)) \<le> 1"
  proof
    fix w :: int
    from forwarded_times_spaced [OF assms, of cfg st]
    have "sorted_wrt (\<lambda>a b. a + 50 \<le> b) (forwarded_times cfg sid es st)"
      by (rule conjunct2)
    then show "length (filter (\<lambda>t. w \<le> t \<and> t < w + 50) (forwarded_times cfg sid es st)) \<le> 1"
      by (rule window_at_most_one)
  qed
  show "run cfg es st = Some (st', out) \<and> forwarded_times cfg sid es st \<noteq> [] \<and>
          now - last (forwarded_times cfg sid es st) < 50 \<longrightarrow>
            relay now sid kind to payload st' = (st', [])"
  proof
    assume a: "run cfg es st = Some (st', out) \<and> forwarded_times cfg sid es st \<noteq> [] \<and>
          now - last (forwarded_times cfg sid es st) < 50"
    then have "now - last_signal st' sid < 50"
      using last_forwarded_time [OF assms, of cfg st st' out] by simp
    then have "\<not> forwards now sid st'"
      using forwards_after_window [of now sid st'] by auto
    then show "relay now sid kind to payload st' = (st', [])" by (rule relay_dropped)
  qed
  show "forwards now sid st \<longrightarrow>
            snd (relay now sid kind to payload st) = to_emit st sid to (signal_event kind sid payload)"
    by (simp add: relay_forwarded)
  show "\<not> forwards now sid st \<longrightarrow> relay now sid kind to payload st = (st, [])"
    by (simp add: relay_dropped)
qed

theorem signal_rate_limit_witness:
  "forwarded_times cfg0 ''H''
     [(1000, Signal ''H'' SigOffer ''L1'' JObject),
      (1020, Signal ''H'' SigIceCandidate ''L1'' JObject),
      (1030, Signal ''L1'' SigAnswer ''H'' JObject),
      (1060, Signal ''H'' SigIceCandidate ''L1'' JObject)] st_hosted = [1000, 1060]
   \<and> (\<exists>st' out.
        run cfg0
          [(1000, Signal ''H'' SigOffer ''L1'' JObject),
           (1020, Signal ''H'' SigIceCandidate ''L1'' JObject),
           (1030, Signal ''L1'' SigAnswer ''H'' JObject),
           (1060, Signal ''H'' SigIceCandidate ''L1'' JObject)] st_hosted = Some (st', out)
        \<and> out = [(''L1'', Offer ''H'' JObject), (''H'', Answer ''L1'' JObject),
                  (''L1'', IceCandidate ''H'' JObject)]
        \<and> relay 1109 ''H'' SigOffer ''L2'' JObject st' = (st', []))"
proof -
  let ?es = "[(1000::int, Signal ''H'' SigOffer ''L1'' JObject),
      (1020, Signal ''H'' SigIceCandidate ''L1'' JObject),
      (1030, Signal ''L1'' SigAnswer ''H'' JObject),
      (1060, Signal ''H'' SigIceCandidate ''L1'' JObject)]"
  have nd: "\<forall>e \<in> set ?es. snd e \<noteq> Disconnect ''H''" by simp
  have ft: "forwarded_times cfg0 ''H'' ?es st_hosted = [1000, 1060]"
    by (simp add: handler_defs example_defs forwards_def)
  obtain st' out where r: "run cfg0 ?es st_hosted = Some (st', out)"
    and out: "out = [(''L1'', Offer ''H'' JObject), (''H'', Answer ''L1'' JObject),
                  (''L1'', IceCandidate ''H'' JObject)]"
    by (simp add: handler_defs example_defs)
  have "relay 1109 ''H'' SigOffer ''L2'' JObject st' = (st', [])"
    using signal_rate_limit [OF nd, of cfg0 st_hosted st' out 1109 SigOffer "''L2''" JObject] r ft
    by simp
  then show ?thesis using ft r out by simp
qed

subsection \<open>Sessions that are neither host nor listener of their room\<close>

text \<open>
  Claim C8. A connected socket \<open>sid\<close> asks to join as host a room that records the host
  \<open>h\<close>. It is sent \<open>Room already has a host\<close>, and its session records the role
  \<open>host\<close> and the room id. A \<open>mute-stream\<close> or \<open>unmute-stream\<close> of \<open>sid\<close> after that is
  broadcast to the socket.io room of the room id, and reaches the host \<open>h\<close> when \<open>h\<close> is
  another connected socket that has entered that room, as it has in every state that
  satisfies \<open>members_subscribed\<close>.
\<close>

theorem rejected_host_can_mute:
  assumes live: "map_of (sockets st) sid = Some sock"
      and rid: "rid \<noteq> []" "length rid \<le> 10"
      and room: "map_of (rooms st) rid = Some room" "host room = Some h" "h \<noteq> []"
  shows "snd (join_room cfg now sid (JString rid) (JString ''host'') st)
           = [(sid, ErrorEv ''Room already has a host'')]
       \<and> (\<exists>sock'. map_of (sockets (fst (join_room cfg now sid (JString rid) (JString ''host'') st))) sid
                    = Some sock' \<and> role sock' = JString ''host'' \<and> roomId sock' = Some rid)
       \<and> snd (mute_stream sid (fst (join_room cfg now sid (JString rid) (JString ''host'') st)))
           = to_emit (fst (join_room cfg now sid (JString rid) (JString ''host'') st)) sid rid HostMuted
       \<and> snd (unmute_stream sid (fst (join_room cfg now sid (JString rid) (JString ''host'') st)))
           = to_emit (fst (join_room cfg now sid (JString rid) (JString ''host'') st)) sid rid HostUnmuted
       \<and> (h \<noteq> sid \<and> map_of (sockets st) h = Some hsock \<and>
          (rid \<in> set (joined hsock) \<or> members_subscribed st) \<longrightarrow>
            (h, HostMuted)
              \<in> set (snd (mute_stream sid (fst (join_room cfg now sid (JString rid) (JString ''host'') st))))
          \<and> (h, HostUnmuted)
              \<in> set (snd (unmute_stream sid (fst (join_room cfg now sid (JString rid) (JString ''host'') st)))))"
proof -
  let ?js = "joined_state now sid sock rid (JString ''host'') st"
  have has: "Map_has rid (rooms st)" using room by (simp add: Map_has_def)
  have j: "join_room cfg now sid (JString rid) (JString ''host'') st
             = (?js, [(sid, ErrorEv ''Room already has a host'')])"
    using room has
    by (simp add: join_room_admitted [OF live rid] handleHostJoin_def joined_state_simps emit_def)
  have s: "map_of (sockets ?js) sid
      = Some (sock\<lparr>joined := Set_add rid (joined sock), roomId := Some rid, role := JString ''host''\<rparr>)"
    by (simp add: joined_state_simps map_of_update)
  have m: "mute_stream sid ?js = (?js, to_emit ?js sid rid HostMuted)"
    "unmute_stream sid ?js = (?js, to_emit ?js sid rid HostUnmuted)"
    using rid by (simp_all add: mute_stream_def unmute_stream_def host_control_def s)
  have h: "(h, ev) \<in> set (to_emit ?js sid rid ev)"
    if "h \<noteq> sid" "map_of (sockets st) h = Some hsock"
      "rid \<in> set (joined hsock) \<or> members_subscribed st" for ev
  proof -
    have "(h, hsock) \<in> set (sockets ?js)"
      using that by (simp add: joined_state_simps mem_update_other map_of_SomeD)
    moreover have "rid \<in> set (joined hsock)"
      using that(2,3) room(1,2) unfolding members_subscribed_iff subscribed_map_def by metis
    ultimately show ?thesis using that(1) by (auto simp: mem_to_emit in_channel_def)
  qed
  show ?thesis using s h by (simp add: j m)
qed

theorem rejected_host_can_mute_witness:
  "snd (join_room cfg0 1003 ''B'' (JString ''R1'') (JString ''host'') st_hosted)
     = [(''B'', ErrorEv ''Room already has a host'')]
   \<and> (''H'', HostMuted)
       \<in> set (snd (mute_stream ''B''
                 (fst (join_room cfg0 1003 ''B'' (JString ''R1'') (JString ''host'') st_hosted))))
   \<and> (''H'', HostUnmuted)
       \<in> set (snd (unmute_stream ''B''
                 (fst (join_room cfg0 1003 ''B'' (JString ''R1'') (JString ''host'') st_hosted))))"
proof -
  have live: "map_of (sockets st_hosted) ''B'' = Some new_socket"
    by (simp add: example_defs)
  have room: "map_of (rooms st_hosted) ''R1''
      = Some \<lparr>host = Some ''H'', listeners = [''L1'', ''L2''], createdAt = 1000\<rparr>"
    by (simp add: example_defs)
  have host: "map_of (sockets st_hosted) ''H''
      = Some \<lparr>roomId = Some ''R1'', role = JString ''host'', joined = [''R1''],
              signalRateLimit = []\<rparr>"
    by (simp add: example_defs)
  have pre: "''R1'' \<noteq> []" "length ''R1'' \<le> 10"
    "host \<lparr>host = Some ''H'', listeners = [''L1'', ''L2''], createdAt = 1000\<rparr> = Some ''H''"
    "''H'' \<noteq> []"
    by simp_all
  have hostpre: "''H'' \<noteq> ''B'' \<and> map_of (sockets st_hosted) ''H''
      = Some \<lparr>roomId = Some ''R1'', role = JString ''host'', joined = [''R1''],
              signalRateLimit = []\<rparr> \<and>
      (''R1'' \<in> set (joined \<lparr>roomId = Some ''R1'', role = JString ''host'', joined = [''R1''],
              signalRateLimit = []\<rparr>) \<or> members_subscribed st_hosted)"
    using host members_subscribed_st_hosted by simp
  from rejected_host_can_mute [OF live pre(1,2) room pre(3,4), where cfg = cfg0 and now = 1003]
    hostpre
  show ?thesis by blast
qed

text \<open>
  With the registry at \<open>maxRooms\<close>, a join with the valid room id R3 and the role
  \<open>dj\<close> creates no room and records nothing: it is answered with
  \<open>Server at capacity\<close>. And a room that a \<open>dj\<close> join has created is deleted by the
  immediate path when a listener joins it and leaves.
\<close>

theorem other_role_join_counterexample:
  "map_of (sockets st_full) ''B'' = Some new_socket
   \<and> map_of (rooms st_full) ''R3'' = None
   \<and> join_room cfg0 5000 ''B'' (JString ''R3'') (JString ''dj'') st_full
       = (st_full, [(''B'', ErrorEv ''Server at capacity'')])
   \<and> map_of (rooms (fst (join_room cfg0 1000 ''B'' (JString ''R9'') (JString ''dj'') st_connected)))
        ''R9'' = Some \<lparr>host = None, listeners = [], createdAt = 1000\<rparr>
   \<and> map_of (rooms (fst (disconnect ''L1''
        (fst (join_room cfg0 1001 ''L1'' (JString ''R9'') (JString ''listener'')
          (fst (join_room cfg0 1000 ''B'' (JString ''R9'') (JString ''dj'') st_connected)))))))
        ''R9'' = None"
  by (simp add: handler_defs example_defs)

text \<open>
  Claim C10, as the code has it. A connected socket joins with a valid room id and a role
  that is neither \<open>host\<close> nor \<open>listener\<close>, and the room exists or the registry is below
  \<open>maxRooms\<close>. Then no event is delivered; the room is in the registry afterwards, as it
  was or, if it was absent, new with no host and no listeners; the other rooms are
  untouched; the session records the room id and the role. When this socket disconnects
  no branch of the cleanup applies: the registry is unchanged and no event is delivered.
  A room created by this join, while it has no host and no listeners, is removed by the
  sweep once its age is over \<open>roomTimeout\<close> hours, and not before.
\<close>

theorem other_role_join:
  assumes live: "map_of (sockets st) sid = Some sock"
      and rid: "rid \<noteq> []" "length rid \<le> 10"
      and other: "rolev \<noteq> JString ''host''" "rolev \<noteq> JString ''listener''"
      and cap: "Map_has rid (rooms st) \<or> int (length (rooms st)) < maxRooms cfg"
      and dist: "distinct (map fst (rooms st))"
  shows "snd (join_room cfg now sid (JString rid) rolev st) = []
       \<and> map_of (rooms (fst (join_room cfg now sid (JString rid) rolev st))) rid
           = Some (case map_of (rooms st) rid of
                     None \<Rightarrow> \<lparr>host = None, listeners = [], createdAt = now\<rparr>
                   | Some room \<Rightarrow> room)
       \<and> (\<forall>rid'. rid' \<noteq> rid \<longrightarrow>
            map_of (rooms (fst (join_room cfg now sid (JString rid) rolev st))) rid'
              = map_of (rooms st) rid')
       \<and> map_of (sockets (fst (join_room cfg now sid (JString rid) rolev st))) sid
           = Some (sock\<lparr>joined := Set_add rid (joined sock), roomId := Some rid, role := rolev\<rparr>)
       \<and> rooms (fst (disconnect sid (fst (join_room cfg now sid (JString rid) rolev st))))
           = rooms (fst (join_room cfg now sid (JString rid) rolev st))
       \<and> snd (disconnect sid (fst (join_room cfg now sid (JString rid) rolev st))) = []
       \<and> (map_of (rooms st) rid = None \<longrightarrow>
            map_of (rooms (sweep cfg t
                (fst (disconnect sid (fst (join_room cfg now sid (JString rid) rolev st)))))) rid
              = (if t - now > roomTimeout cfg * 60 * 60 * 1000 then None
                 else Some \<lparr>host = None, listeners = [], createdAt = now\<rparr>))"
proof -
  let ?js = "joined_state now sid sock rid rolev st"
  have j: "join_room cfg now sid (JString rid) rolev st = (?js, [])"
    using other by (simp add: join_room_admitted [OF live rid cap])
  have s: "map_of (sockets ?js) sid
      = Some (sock\<lparr>joined := Set_add rid (joined sock), roomId := Some rid, role := rolev\<rparr>)"
    by (simp add: joined_state_simps map_of_update)
  have d: "disconnect sid ?js =
      (?js\<lparr>sockets := AList.delete sid (sockets ?js), connectionCount := connectionCount ?js - 1\<rparr>, [])"
    using other by (simp add: disconnect_def s handleDisconnect_def split: option.splits)
  have sw: "map_of (rooms (sweep cfg t (fst (disconnect sid ?js)))) rid
              = (if t - now > roomTimeout cfg * 60 * 60 * 1000 then None
                 else Some \<lparr>host = None, listeners = [], createdAt = now\<rparr>)"
    if "map_of (rooms st) rid = None"
    using that
    by (simp add: d sweep_def Let_def map_of_filter_distinct [OF distinct_joined_state [OF dist]]
        joined_state_simps)
  show ?thesis
    using sw by (auto simp: j d joined_state_simps map_of_update split: option.splits)
qed

theorem other_role_join_witness:
  "snd (join_room cfg0 1000 ''B'' (JString ''R9'') (JString ''dj'') st_connected) = []
   \<and> map_of (rooms (fst (join_room cfg0 1000 ''B'' (JString ''R9'') (JString ''dj'') st_connected)))
        ''R9'' = Some \<lparr>host = None, listeners = [], createdAt = 1000\<rparr>
   \<and> map_of (sockets (fst (join_room cfg0 1000 ''B'' (JString ''R9'') (JString ''dj'')
        st_connected))) ''B''
       = Some \<lparr>roomId = Some ''R9'', role = JString ''dj'', joined = [''R9''],
               signalRateLimit = []\<rparr>
   \<and> rooms (fst (disconnect ''B''
        (fst (join_room cfg0 1000 ''B'' (JString ''R9'') (JString ''dj'') st_connected))))
       = rooms (fst (join_room cfg0 1000 ''B'' (JString ''R9'') (JString ''dj'') st_connected))
   \<and> snd (disconnect ''B''
        (fst (join_room cfg0 1000 ''B'' (JString ''R9'') (JString ''dj'') st_connected))) = []
   \<and> map_of (rooms (sweep cfg0 43201000 (fst (disconnect ''B''
        (fst (join_room cfg0 1000 ''B'' (JString ''R9'') (JString ''dj'') st_connected)))))) ''R9''
       = Some \<lparr>host = None, listeners = [], createdAt = 1000\<rparr>
   \<and> map_of (rooms (sweep cfg0 43201001 (fst (disconnect ''B''
        (fst (join_room cfg0 1000 ''B'' (JString ''R9'') (JString ''dj'') st_connected)))))) ''R9''
       = None"
proof -
  have live: "map_of (sockets st_connected) ''B'' = Some new_socket"
    by (simp add: example_defs)
  have cap: "Map_has ''R9'' (rooms st_connected) \<or> int (length (rooms st_connected)) < maxRooms cfg0"
    by (simp add: example_defs)
  have dist: "distinct (map fst (rooms st_connected))"
    by (simp add: example_defs)
  have absent: "map_of (rooms st_connected) ''R9'' = None"
    by (simp add: example_defs)
  have sock: "new_socket\<lparr>joined := Set_add ''R9'' (joined new_socket), roomId := Some ''R9'',
        role := JString ''dj''\<rparr>
      = \<lparr>roomId = Some ''R9'', role = JString ''dj'', joined = [''R9''], signalRateLimit = []\<rparr>"
    by (simp add: new_socket_def Set_add_def)
  have time: "roomTimeout cfg0 = 12"
    by (simp add: cfg0_def)
  note T = other_role_join [where rid = "''R9''" and rolev = "JString ''dj''" and now = 1000,
      OF live _ _ _ _ cap dist]
  show ?thesis
    using T [of 43201000] T [of 43201001]
    by (simp add: absent sock time)
qed

end
